theory Spec2Isabelle
  imports Complex_Main
begin

section \<open>Data model\<close>

text \<open>
  The rows that \<^verbatim>\<open>src/resolvers/storeBookRelease.ts\<close> reads and writes through
  \<^verbatim>\<open>context.prisma\<close>. Nullable columns are options; \<^verbatim>\<open>id\<close> columns and user ids
  are integers (\<^verbatim>\<open>BigInt(user.id)\<close> is the same integer), a \<^verbatim>\<open>Date\<close> is its
  time stamp.
\<close>

record StoreBookPrintCover =
  printCover_id :: int
  printCover_uuid :: string

record StoreBookPrintFile =
  printFile_id :: int
  printFile_uuid :: string

record StoreBookRelease =
  release_id :: int
  uuid :: string
  storeBookId :: int
  userId :: int
  status :: "string option"
  releaseName :: string
  releaseNotes :: "string option"
  publishedAt :: "nat option"
  coverId :: "int option"
  fileId :: "int option"
  printCoverId :: "int option"
  printFileId :: "int option"

record StoreBook =
  storeBook_id :: int
  storeBook_status :: "string option"

record Prisma =
  storeBookRelease :: "StoreBookRelease list"
  storeBook :: "StoreBook list"
  storeBookPrintCover :: "StoreBookPrintCover list"
  storeBookPrintFile :: "StoreBookPrintFile list"

record User =
  user_id :: int

record ResolverContext =
  user :: "User option"

text \<open>A page of a PDF document: \<^verbatim>\<open>page._pageInfo.view\<close> is \<^verbatim>\<open>[x, y, w, h]\<close>.\<close>

record PDFPage =
  view_x :: real
  view_y :: real
  view_w :: real
  view_h :: real

record PDFDocument =
  pages :: "PDFPage list"

definition numPages :: "PDFDocument \<Rightarrow> nat" where
  "numPages pdf = length (pages pdf)"

text \<open>\<^verbatim>\<open>pdf.getPage(i)\<close>: pages are numbered from 1; a number out of range rejects.\<close>

definition getPage :: "PDFDocument \<Rightarrow> nat \<Rightarrow> PDFPage option" where
  "getPage pdf i = (if 1 \<le> i \<and> i \<le> numPages pdf then Some (pages pdf ! (i - 1)) else None)"

section \<open>Errors\<close>

text \<open>The members of \<^verbatim>\<open>apiErrors\<close> that the two resolvers throw.\<close>

datatype apiError =
  notAuthenticated
| storeBookReleaseDoesNotExist
| actionNotAllowed
| storeBookReleaseAlreadyPublished
| storeBookNotPublished

text \<open>
  What a resolver can throw: an API error, the aggregate validation error with its
  messages, the runtime's \<^verbatim>\<open>TypeError\<close> on reading a property of \<^verbatim>\<open>null\<close>, a
  rejected document request, and a rejected \<^verbatim>\<open>update\<close> (no row with that id).
\<close>

datatype error =
  GraphQLError apiError
| ValidationFailed "string list"
| TypeError
| DocumentError
| RecordNotFound

text \<open>
  Modelled from the spec: \<^verbatim>\<open>throwApiError\<close> of \<^verbatim>\<open>utils.js\<close>, which is not in the
  sources. It signals the given error and ends the operation.
\<close>

definition throwApiError :: "apiError \<Rightarrow> error + 'a" where
  "throwApiError e = Inl (GraphQLError e)"

text \<open>
  Modelled from the spec: \<^verbatim>\<open>throwValidationError\<close> of \<^verbatim>\<open>utils.js\<close>, which is not
  in the sources. Each argument is one check's failure message, or \<^verbatim>\<open>null\<close> when the
  check passed; the failures are reported to the caller as one combined error, only if
  there is any.
\<close>

definition throwValidationError :: "string option list \<Rightarrow> error + unit" where
  "throwValidationError errors =
     (let filteredErrors = List.map_filter (\<lambda>e. e) errors in
      if filteredErrors \<noteq> [] then Inl (ValidationFailed filteredErrors) else Inr ())"

section \<open>What the resolvers import\<close>

text \<open>
  The constants, the clock, the document reader and the checks of
  \<^verbatim>\<open>validationService.js\<close> are not in the sources: they are parameters. A check
  returns its failure message, or \<^verbatim>\<open>None\<close> when it passes.
\<close>

record Deps =
  admins :: "int list"
  now :: nat
  getTableObjectFileUrl :: "string \<Rightarrow> string"
  getDocument :: "string \<Rightarrow> PDFDocument option"
  validateReleaseNameLength :: "string \<Rightarrow> string option"
  validateReleaseNotesLength :: "string \<Rightarrow> string option"
  validateStoreBookPrintFilePages :: "nat \<Rightarrow> string option"
  validateStoreBookPrintFilePageSize :: "real \<Rightarrow> real \<Rightarrow> string option"
  validateStoreBookPrintCoverPages :: "nat \<Rightarrow> string option"
  validateStoreBookPrintCoverPageSize :: "real \<Rightarrow> real \<Rightarrow> nat \<Rightarrow> string option"

section \<open>State\<close>

text \<open>
  The store behind \<^verbatim>\<open>context.prisma\<close>, and the requests made to the document reader
  so far, in order. A resolver takes the state and returns the state after it.
\<close>

datatype docCall = GetDocument string | GetPage string nat

record State =
  prisma :: Prisma
  inspected :: "docCall list"

section \<open>Store operations\<close>

text \<open>\<^verbatim>\<open>storeBookRelease.findFirst({ where: { uuid } })\<close>\<close>

definition findFirstRelease :: "Prisma \<Rightarrow> string \<Rightarrow> StoreBookRelease option" where
  "findFirstRelease db u = find (\<lambda>r. uuid r = u) (storeBookRelease db)"

text \<open>
  The relations that \<^verbatim>\<open>include: { printCover: true, printFile: true }\<close> loads, as the
  resolvers \<^verbatim>\<open>printCover\<close> and \<^verbatim>\<open>printFile\<close> of the same file load them.
\<close>

definition printCover :: "Prisma \<Rightarrow> StoreBookRelease \<Rightarrow> StoreBookPrintCover option" where
  "printCover db r =
     (case printCoverId r of
        None \<Rightarrow> None
      | Some i \<Rightarrow> find (\<lambda>c. printCover_id c = i) (storeBookPrintCover db))"

definition printFile :: "Prisma \<Rightarrow> StoreBookRelease \<Rightarrow> StoreBookPrintFile option" where
  "printFile db r =
     (case printFileId r of
        None \<Rightarrow> None
      | Some i \<Rightarrow> find (\<lambda>f. printFile_id f = i) (storeBookPrintFile db))"

text \<open>\<^verbatim>\<open>storeBook.findFirst({ where: { id } })\<close>\<close>

definition findFirstStoreBook :: "Prisma \<Rightarrow> int \<Rightarrow> StoreBook option" where
  "findFirstStoreBook db i = find (\<lambda>b. storeBook_id b = i) (storeBook db)"

fun updateWhere :: "('a \<Rightarrow> bool) \<Rightarrow> ('a \<Rightarrow> 'a) \<Rightarrow> 'a list \<Rightarrow> 'a list" where
  "updateWhere p f [] = []"
| "updateWhere p f (x # xs) = (if p x then f x # xs else x # updateWhere p f xs)"

text \<open>
  An optional argument of a request (\<^verbatim>\<open>releaseNotes?: string\<close>) is left out
  (\<^verbatim>\<open>undefined\<close>), \<^verbatim>\<open>null\<close>, or a value. The test \<^verbatim>\<open>!= null\<close> is false for the first
  two.
\<close>

datatype 'a optional = Undefined | Null | Defined 'a

record PublishArgs =
  args_uuid :: "string option"
  args_releaseName :: string
  args_releaseNotes :: "string optional"

text \<open>
  The \<^verbatim>\<open>data\<close> of the update at the end of \<^verbatim>\<open>publishStoreBookRelease\<close>, applied to
  the stored row. The update leaves a column as it is when its value in \<^verbatim>\<open>data\<close> is
  \<^verbatim>\<open>undefined\<close>, and empties it when the value is \<^verbatim>\<open>null\<close>: notes that the request
  leaves out keep the stored notes.
\<close>

definition publishData :: "Deps \<Rightarrow> PublishArgs \<Rightarrow> StoreBookRelease \<Rightarrow> StoreBookRelease" where
  "publishData d a r =
     r\<lparr>status := Some ''published'',
       releaseName := args_releaseName a,
       releaseNotes :=
         (case args_releaseNotes a of
            Undefined \<Rightarrow> releaseNotes r
          | Null \<Rightarrow> None
          | Defined notes \<Rightarrow> Some notes),
       publishedAt := Some (now d)\<rparr>"

text \<open>
  \<^verbatim>\<open>storeBookRelease.update({ where: { id }, data })\<close>: the row with this id is
  rewritten, whatever it holds, and returned; with no such row the request is rejected.
\<close>

definition updateRelease ::
  "int \<Rightarrow> (StoreBookRelease \<Rightarrow> StoreBookRelease) \<Rightarrow> State \<Rightarrow> (error + StoreBookRelease option) \<times> State"
where
  "updateRelease i f s =
     (case find (\<lambda>r. release_id r = i) (storeBookRelease (prisma s)) of
        None \<Rightarrow> (Inl RecordNotFound, s)
      | Some r \<Rightarrow>
          (Inr (Some (f r)),
           s\<lparr>prisma := (prisma s)\<lparr>storeBookRelease :=
                updateWhere (\<lambda>r. release_id r = i) f (storeBookRelease (prisma s))\<rparr>\<rparr>))"

section \<open>retrieveStoreBookRelease\<close>

definition retrieveStoreBookRelease ::
  "string option \<Rightarrow> State \<Rightarrow> error + StoreBookRelease option"
where
  "retrieveStoreBookRelease u s =
     (case u of
        None \<Rightarrow> Inr None
      | Some uuid' \<Rightarrow>
          (case findFirstRelease (prisma s) uuid' of
             None \<Rightarrow> Inl TypeError
           | Some release \<Rightarrow>
               Inr (Some (if status release = None
                          then release\<lparr>status := Some ''unpublished''\<rparr>
                          else release))))"

section \<open>publishStoreBookRelease\<close>

text \<open>
  The loop over the pages of the print file,
  \<^verbatim>\<open>for (let i = 1; i <= printFilePages; i++)\<close>.
\<close>

function printFilePageLoop ::
  "Deps \<Rightarrow> string \<Rightarrow> PDFDocument \<Rightarrow> nat \<Rightarrow> nat \<Rightarrow> State \<Rightarrow> (error + unit) \<times> State"
where
  "printFilePageLoop d url pdf i n s =
     (if i \<le> n then
        (let s' = s\<lparr>inspected := inspected s @ [GetPage url i]\<rparr> in
         case getPage pdf i of
           None \<Rightarrow> (Inl DocumentError, s')
         | Some page \<Rightarrow>
             (case throwValidationError
                     [validateStoreBookPrintFilePageSize d (view_w page) (view_h page)] of
                Inl e \<Rightarrow> (Inl e, s')
              | Inr _ \<Rightarrow> printFilePageLoop d url pdf (Suc i) n s'))
      else (Inr (), s))"
  by pat_completeness auto
termination
  by (relation "measure (\<lambda>(d, url, pdf, i, n, s). Suc n - i)") auto

declare printFilePageLoop.simps [simp del]

text \<open>
  Lines 116 to 128: the print file is opened, its page count is checked, then the size of
  each page. The opened document is the result.
\<close>

definition validatePrintFile ::
  "Deps \<Rightarrow> string \<Rightarrow> State \<Rightarrow> (error + PDFDocument) \<times> State"
where
  "validatePrintFile d printFileUrl s =
     (let s1 = s\<lparr>inspected := inspected s @ [GetDocument printFileUrl]\<rparr> in
      case getDocument d printFileUrl of
        None \<Rightarrow> (Inl DocumentError, s1)
      | Some printFilePdf \<Rightarrow>
          (let printFilePages = numPages printFilePdf in
           case throwValidationError [validateStoreBookPrintFilePages d printFilePages] of
             Inl e \<Rightarrow> (Inl e, s1)
           | Inr _ \<Rightarrow>
               (case printFilePageLoop d printFileUrl printFilePdf 1 printFilePages s1 of
                  (Inl e, s2) \<Rightarrow> (Inl e, s2)
                | (Inr _, s2) \<Rightarrow> (Inr printFilePdf, s2))))"

text \<open>
  Lines 130 to 142: the print cover is opened, its page count is checked, then the size of
  its first page, together with the page count of the print file.
\<close>

definition validatePrintCover ::
  "Deps \<Rightarrow> string \<Rightarrow> PDFDocument \<Rightarrow> State \<Rightarrow> (error + unit) \<times> State"
where
  "validatePrintCover d printCoverUrl printFilePdf s =
     (let s3 = s\<lparr>inspected := inspected s @ [GetDocument printCoverUrl]\<rparr> in
      case getDocument d printCoverUrl of
        None \<Rightarrow> (Inl DocumentError, s3)
      | Some printCoverPdf \<Rightarrow>
          (let printCoverPages = numPages printCoverPdf in
           case throwValidationError [validateStoreBookPrintCoverPages d printCoverPages] of
             Inl e \<Rightarrow> (Inl e, s3)
           | Inr _ \<Rightarrow>
               (let s4 = s3\<lparr>inspected := inspected s3 @ [GetPage printCoverUrl 1]\<rparr> in
                case getPage printCoverPdf 1 of
                  None \<Rightarrow> (Inl DocumentError, s4)
                | Some printCoverFirstPage \<Rightarrow>
                    (case throwValidationError
                           [validateStoreBookPrintCoverPageSize d
                              (view_w printCoverFirstPage)
                              (view_h printCoverFirstPage)
                              (numPages printFilePdf)] of
                       Inl e \<Rightarrow> (Inl e, s4)
                     | Inr _ \<Rightarrow> (Inr (), s4)))))"

text \<open>
  The block of lines 104 to 143, entered when both the print cover and the print file
  are attached.
\<close>

definition validatePrint ::
  "Deps \<Rightarrow> StoreBookPrintCover \<Rightarrow> StoreBookPrintFile \<Rightarrow> State \<Rightarrow> (error + unit) \<times> State"
where
  "validatePrint d pc pf s =
     (let printCoverUrl = getTableObjectFileUrl d (printCover_uuid pc);
          printFileUrl = getTableObjectFileUrl d (printFile_uuid pf)
      in
      case validatePrintFile d printFileUrl s of
        (Inl e, s2) \<Rightarrow> (Inl e, s2)
      | (Inr printFilePdf, s2) \<Rightarrow> validatePrintCover d printCoverUrl printFilePdf s2)"

text \<open>
  The list \<^verbatim>\<open>errors\<close> of lines 96 to 100: the outcome of the name check, and of the
  notes check when the request has notes.
\<close>

definition argErrors :: "Deps \<Rightarrow> PublishArgs \<Rightarrow> string option list" where
  "argErrors d a =
     validateReleaseNameLength d (args_releaseName a) #
     (case args_releaseNotes a of
        Defined notes \<Rightarrow> [validateReleaseNotesLength d notes]
      | _ \<Rightarrow> [])"

text \<open>
  Lines 54 to 143 of the resolver: everything before the update. The result is the
  error thrown, \<^verbatim>\<open>Inr None\<close> for the early \<^verbatim>\<open>return null\<close>, or the loaded release
  when every check has passed.
\<close>

definition publishChecks ::
  "Deps \<Rightarrow> PublishArgs \<Rightarrow> ResolverContext \<Rightarrow> State \<Rightarrow> (error + StoreBookRelease option) \<times> State"
where
  "publishChecks d a ctx s =
     (case args_uuid a of
        None \<Rightarrow> (Inr None, s)
      | Some uuid' \<Rightarrow>
     (case user ctx of
        None \<Rightarrow> (throwApiError notAuthenticated, s)
      | Some usr \<Rightarrow>
     (let isAdmin = (user_id usr \<in> set (admins d)) in
      case findFirstRelease (prisma s) uuid' of
        None \<Rightarrow> (throwApiError storeBookReleaseDoesNotExist, s)
      | Some rel \<Rightarrow>
     (if \<not> isAdmin \<and> userId rel \<noteq> user_id usr then (throwApiError actionNotAllowed, s)
      else if status rel = Some ''published''
        then (throwApiError storeBookReleaseAlreadyPublished, s)
      else
     (case findFirstStoreBook (prisma s) (storeBookId rel) of
        None \<Rightarrow> (Inl TypeError, s)
      | Some book \<Rightarrow>
     (if storeBook_status book \<noteq> Some ''published'' \<and> storeBook_status book \<noteq> Some ''hidden''
        then (throwApiError storeBookNotPublished, s)
      else
     (case throwValidationError (argErrors d a) of
        Inl e \<Rightarrow> (Inl e, s)
      | Inr _ \<Rightarrow>
     (case (printCover (prisma s) rel, printFile (prisma s) rel) of
        (Some pc, Some pf) \<Rightarrow>
          (case validatePrint d pc pf s of
             (Inl e, s') \<Rightarrow> (Inl e, s')
           | (Inr _, s') \<Rightarrow> (Inr (Some rel), s'))
      | _ \<Rightarrow> (Inr (Some rel), s)))))))))"

text \<open>The update of lines 145 to 154, for the outcome of the checks.\<close>

definition publishWrite ::
  "Deps \<Rightarrow> PublishArgs \<Rightarrow> (error + StoreBookRelease option) \<Rightarrow> State \<Rightarrow> (error + StoreBookRelease option) \<times> State"
where
  "publishWrite d a checked s =
     (case checked of
        Inl e \<Rightarrow> (Inl e, s)
      | Inr None \<Rightarrow> (Inr None, s)
      | Inr (Some rel) \<Rightarrow> updateRelease (release_id rel) (publishData d a) s)"

definition publishStoreBookRelease ::
  "Deps \<Rightarrow> PublishArgs \<Rightarrow> ResolverContext \<Rightarrow> State \<Rightarrow> (error + StoreBookRelease option) \<times> State"
where
  "publishStoreBookRelease d a ctx s =
     (case publishChecks d a ctx s of (checked, s') \<Rightarrow> publishWrite d a checked s')"


section \<open>The checks of the print stage, as the specification lists them\<close>

text \<open>
  The four checks that the specification asks of a release with a print cover and a
  print file (stage 3 of its validation pipeline), read off the two documents: the print
  file opens, its page count passes, every one of its pages passes the page size check;
  the cover opens, its page count passes, and its first page passes the cover size check
  for the page count of the print file. The predicate does not mention the resolver: the
  lemmas below compare the resolver's print stage with it.
\<close>

definition printChecksPass :: "Deps \<Rightarrow> StoreBookPrintCover \<Rightarrow> StoreBookPrintFile \<Rightarrow> bool" where
  "printChecksPass d pc pf =
     (case getDocument d (getTableObjectFileUrl d (printFile_uuid pf)) of
        None \<Rightarrow> False
      | Some filePdf \<Rightarrow>
          validateStoreBookPrintFilePages d (numPages filePdf) = None \<and>
          list_all (\<lambda>p. validateStoreBookPrintFilePageSize d (view_w p) (view_h p) = None)
            (pages filePdf) \<and>
          (case getDocument d (getTableObjectFileUrl d (printCover_uuid pc)) of
             None \<Rightarrow> False
           | Some coverPdf \<Rightarrow>
               validateStoreBookPrintCoverPages d (numPages coverPdf) = None \<and>
               (case getPage coverPdf 1 of
                  None \<Rightarrow> False
                | Some c \<Rightarrow>
                    validateStoreBookPrintCoverPageSize d (view_w c) (view_h c)
                      (numPages filePdf) = None)))"

section \<open>Two calls\<close>

text \<open>
  The resolver is asynchronous: at each \<^verbatim>\<open>await\<close> another call may run. In the
  sequential schedule the second call starts when the first has returned. In the
  overlapping schedule both calls have loaded the release and run their checks before
  either update reaches the store.
\<close>

definition publishTwiceSequential ::
  "Deps \<Rightarrow> PublishArgs \<Rightarrow> ResolverContext \<Rightarrow> PublishArgs \<Rightarrow> ResolverContext \<Rightarrow> State \<Rightarrow>
   (error + StoreBookRelease option) \<times> (error + StoreBookRelease option) \<times> State"
where
  "publishTwiceSequential d a1 ctx1 a2 ctx2 s =
     (case publishStoreBookRelease d a1 ctx1 s of (r1, s1) \<Rightarrow>
      case publishStoreBookRelease d a2 ctx2 s1 of (r2, s2) \<Rightarrow> (r1, r2, s2))"

definition publishTwiceOverlapping ::
  "Deps \<Rightarrow> PublishArgs \<Rightarrow> ResolverContext \<Rightarrow> PublishArgs \<Rightarrow> ResolverContext \<Rightarrow> State \<Rightarrow>
   (error + StoreBookRelease option) \<times> (error + StoreBookRelease option) \<times> State"
where
  "publishTwiceOverlapping d a1 ctx1 a2 ctx2 s =
     (case publishChecks d a1 ctx1 s of (checked1, s1) \<Rightarrow>
      case publishChecks d a2 ctx2 s1 of (checked2, s2) \<Rightarrow>
      case publishWrite d a1 checked1 s2 of (r1, s3) \<Rightarrow>
      case publishWrite d a2 checked2 s3 of (r2, s4) \<Rightarrow> (r1, r2, s4))"

section \<open>An example configuration and store\<close>

text \<open>
  The thresholds of the checks are configuration. The instances below evaluate the
  resolvers on concrete inputs: a release \<^verbatim>\<open>R1\<close> of user 7 without print assets, a
  release \<^verbatim>\<open>R2\<close> with a print cover and a print file, a release \<^verbatim>\<open>R3\<close> that is
  published, a release \<^verbatim>\<open>R4\<close> of a book in review, a release \<^verbatim>\<open>R5\<close> whose book
  is not stored; a release \<^verbatim>\<open>R6\<close> with valid print assets, a release \<^verbatim>\<open>R7\<close> whose
  print file has one page of another size, a release \<^verbatim>\<open>R8\<close> whose cover is too
  narrow for the four pages of its print file, a release \<^verbatim>\<open>R10\<close> whose status is
  \<^verbatim>\<open>review\<close>, and a release \<^verbatim>\<open>R11\<close> that has stored notes.
\<close>

definition examplePage :: "real \<Rightarrow> real \<Rightarrow> PDFPage" where
  "examplePage w h = \<lparr>view_x = 0, view_y = 0, view_w = w, view_h = h\<rparr>"

definition exampleDocuments :: "(string \<times> PDFDocument) list" where
  "exampleDocuments =
     [(''cdn/F1'', \<lparr>pages = [examplePage 420 595, examplePage 420 595, examplePage 300 595]\<rparr>),
      (''cdn/C1'', \<lparr>pages = [examplePage 800 595, examplePage 800 595]\<rparr>),
      (''cdn/F2'', \<lparr>pages = [examplePage 420 595, examplePage 420 595,
                               examplePage 420 595, examplePage 420 595]\<rparr>),
      (''cdn/C2'', \<lparr>pages = [examplePage 850 595]\<rparr>),
      (''cdn/F3'', \<lparr>pages = [examplePage 420 595, examplePage 420 595,
                               examplePage 300 595, examplePage 420 595]\<rparr>),
      (''cdn/C3'', \<lparr>pages = [examplePage 843 595]\<rparr>)]"

definition exampleDeps :: Deps where
  "exampleDeps =
     \<lparr>admins = [1],
      now = 1700000000,
      getTableObjectFileUrl = (\<lambda>u. ''cdn/'' @ u),
      getDocument = map_of exampleDocuments,
      validateReleaseNameLength =
        (\<lambda>n. if length n < 2 then Some ''release_name_too_short''
             else if 100 < length n then Some ''release_name_too_long'' else None),
      validateReleaseNotesLength =
        (\<lambda>n. if 5000 < length n then Some ''release_notes_too_long'' else None),
      validateStoreBookPrintFilePages =
        (\<lambda>n. if n < 4 \<or> 800 < n then Some ''print_file_pages_invalid'' else None),
      validateStoreBookPrintFilePageSize =
        (\<lambda>w h. if w = 420 \<and> h = 595 then None else Some ''print_file_page_size_invalid''),
      validateStoreBookPrintCoverPages =
        (\<lambda>n. if n = 1 then None else Some ''print_cover_pages_invalid''),
      validateStoreBookPrintCoverPageSize =
        (\<lambda>w h n. if h = 595 \<and> 840 + real n \<le> w then None
                else Some ''print_cover_page_size_invalid'')\<rparr>"

definition exampleRelease :: "int \<Rightarrow> string \<Rightarrow> int \<Rightarrow> StoreBookRelease" where
  "exampleRelease i u b =
     \<lparr>release_id = i, uuid = u, storeBookId = b, userId = 7, status = None,
      releaseName = ''Draft'', releaseNotes = None, publishedAt = None,
      coverId = None, fileId = None, printCoverId = None, printFileId = None\<rparr>"

definition examplePrisma :: Prisma where
  "examplePrisma =
     \<lparr>storeBookRelease =
        [exampleRelease 1 ''R1'' 10,
         (exampleRelease 2 ''R2'' 10)\<lparr>printCoverId := Some 1, printFileId := Some 1\<rparr>,
         (exampleRelease 3 ''R3'' 10)\<lparr>status := Some ''published'', publishedAt := Some 1600000000\<rparr>,
         exampleRelease 4 ''R4'' 11,
         exampleRelease 5 ''R5'' 12,
         (exampleRelease 6 ''R6'' 10)\<lparr>printCoverId := Some 2, printFileId := Some 2\<rparr>,
         (exampleRelease 7 ''R7'' 10)\<lparr>printCoverId := Some 2, printFileId := Some 3\<rparr>,
         (exampleRelease 8 ''R8'' 10)\<lparr>printCoverId := Some 3, printFileId := Some 2\<rparr>,
         (exampleRelease 10 ''R10'' 10)\<lparr>status := Some ''review''\<rparr>,
         (exampleRelease 11 ''R11'' 10)\<lparr>releaseNotes := Some ''old notes''\<rparr>],
      storeBook =
        [\<lparr>storeBook_id = 10, storeBook_status = Some ''published''\<rparr>,
         \<lparr>storeBook_id = 11, storeBook_status = Some ''review''\<rparr>],
      storeBookPrintCover =
        [\<lparr>printCover_id = 1, printCover_uuid = ''C1''\<rparr>,
         \<lparr>printCover_id = 2, printCover_uuid = ''C2''\<rparr>,
         \<lparr>printCover_id = 3, printCover_uuid = ''C3''\<rparr>],
      storeBookPrintFile =
        [\<lparr>printFile_id = 1, printFile_uuid = ''F1''\<rparr>,
         \<lparr>printFile_id = 2, printFile_uuid = ''F2''\<rparr>,
         \<lparr>printFile_id = 3, printFile_uuid = ''F3''\<rparr>]\<rparr>"

definition exampleState :: State where
  "exampleState = \<lparr>prisma = examplePrisma, inspected = []\<rparr>"

definition exampleArgs :: "string \<Rightarrow> string \<Rightarrow> PublishArgs" where
  "exampleArgs u n =
     \<lparr>args_uuid = Some u, args_releaseName = n, args_releaseNotes = Undefined\<rparr>"

definition exampleArgsNotes :: "string \<Rightarrow> string \<Rightarrow> string \<Rightarrow> PublishArgs" where
  "exampleArgsNotes u n notes =
     \<lparr>args_uuid = Some u, args_releaseName = n, args_releaseNotes = Defined notes\<rparr>"

definition exampleUser :: "int \<Rightarrow> ResolverContext" where
  "exampleUser i = \<lparr>user = Some \<lparr>user_id = i\<rparr>\<rparr>"

lemmas example_defs =
  examplePage_def exampleDocuments_def exampleDeps_def exampleRelease_def examplePrisma_def
  exampleState_def exampleArgs_def exampleArgsNotes_def exampleUser_def

lemmas resolver_defs =
  publishStoreBookRelease_def publishChecks_def publishWrite_def updateRelease_def
  publishData_def validatePrint_def validatePrintFile_def validatePrintCover_def
  printFilePageLoop.simps throwValidationError_def
  throwApiError_def findFirstRelease_def findFirstStoreBook_def printCover_def
  printFile_def getPage_def numPages_def argErrors_def publishTwiceSequential_def
  publishTwiceOverlapping_def retrieveStoreBookRelease_def printChecksPass_def
  List.map_filter_def Let_def

section \<open>The checks do not write\<close>

lemma throwValidationError_single:
  "throwValidationError [x] = (case x of None \<Rightarrow> Inr () | Some m \<Rightarrow> Inl (ValidationFailed [m]))"
  by (simp add: throwValidationError_def List.map_filter_def split: option.splits)

lemma printFilePageLoop_prisma:
  "prisma (snd (printFilePageLoop d url pdf i n s)) = prisma s"
proof (induction d url pdf i n s rule: printFilePageLoop.induct)
  case (1 d url pdf i n s)
  show ?case
    using 1
    by (subst printFilePageLoop.simps)
       (auto simp: Let_def split: option.splits sum.splits)
qed

lemma validatePrint_prisma:
  "prisma (snd (validatePrint d pc pf s)) = prisma s"
proof -
  have loop: "\<And>u p i n t r t'. printFilePageLoop d u p i n t = (r, t') \<Longrightarrow> prisma t' = prisma t"
    using printFilePageLoop_prisma by (metis snd_conv)
  show ?thesis
    by (auto simp: validatePrint_def validatePrintFile_def validatePrintCover_def Let_def
        split: option.splits sum.splits prod.splits dest!: loop)
qed

lemma publishChecks_prisma:
  "prisma (snd (publishChecks d a ctx s)) = prisma s"
proof -
  have vp: "\<And>pc pf r t'. validatePrint d pc pf s = (r, t') \<Longrightarrow> prisma t' = prisma s"
    using validatePrint_prisma by (metis snd_conv)
  show ?thesis
    by (auto simp: publishChecks_def Let_def split: option.splits sum.splits prod.splits dest!: vp)
qed

text \<open>The outcome of the page loop: the first page that fails its check decides.\<close>

lemma printFilePageLoop_result:
  assumes "1 \<le> i" and "n = numPages pdf"
  shows "fst (printFilePageLoop d url pdf i n s) =
     (case find (\<lambda>p. validateStoreBookPrintFilePageSize d (view_w p) (view_h p) \<noteq> None)
             (drop (i - 1) (pages pdf)) of
        None \<Rightarrow> Inr ()
      | Some p \<Rightarrow>
          Inl (ValidationFailed [the (validateStoreBookPrintFilePageSize d (view_w p) (view_h p))]))"
  using assms
proof (induction d url pdf i n s rule: printFilePageLoop.induct)
  case (1 d url pdf i n s)
  show ?case
  proof (cases "i \<le> n")
    case False
    with 1 show ?thesis
      by (subst printFilePageLoop.simps) (simp add: numPages_def)
  next
    case True
    with 1(2,3) have lt: "i - 1 < length (pages pdf)" by (simp add: numPages_def)
    then have dr: "drop (i - 1) (pages pdf) = pages pdf ! (i - 1) # drop i (pages pdf)"
      using 1(2) by (metis Cons_nth_drop_Suc Suc_pred' less_eq_Suc_le One_nat_def)
    have gp: "getPage pdf i = Some (pages pdf ! (i - 1))"
      using True 1(2,3) by (simp add: getPage_def)
    show ?thesis
    proof (cases "validateStoreBookPrintFilePageSize d (view_w (pages pdf ! (i - 1))) (view_h (pages pdf ! (i - 1)))")
      case None
      then have "fst (printFilePageLoop d url pdf i n s) =
          fst (printFilePageLoop d url pdf (Suc i) n (s\<lparr>inspected := inspected s @ [GetPage url i]\<rparr>))"
        using True gp
        by (subst printFilePageLoop.simps) (simp add: Let_def throwValidationError_single)
      also have "\<dots> = (case find (\<lambda>p. validateStoreBookPrintFilePageSize d (view_w p) (view_h p) \<noteq> None)
             (drop (Suc i - 1) (pages pdf)) of
        None \<Rightarrow> Inr ()
      | Some p \<Rightarrow>
          Inl (ValidationFailed [the (validateStoreBookPrintFilePageSize d (view_w p) (view_h p))]))"
        using 1(1)[OF True refl gp] None 1(3) by (simp add: throwValidationError_single)
      finally show ?thesis using None dr by simp
    next
      case (Some m)
      then show ?thesis
        using True gp dr
        by (subst printFilePageLoop.simps) (simp add: Let_def throwValidationError_single)
    qed
  qed
qed


lemma printFilePageLoop_inspected:
  "\<exists>cs. inspected (snd (printFilePageLoop d url pdf i n s)) = inspected s @ cs"
proof (induction d url pdf i n s rule: printFilePageLoop.induct)
  case (1 d url pdf i n s)
  show ?case
    using 1
    by (subst printFilePageLoop.simps)
       (auto simp: Let_def split: option.splits sum.splits)
qed


lemma validatePrint_inspected:
  "\<exists>cs. inspected (snd (validatePrint d pc pf s)) =
     inspected s @ GetDocument (getTableObjectFileUrl d (printFile_uuid pf)) # cs"
proof -
  have loop: "\<And>u p i n t r t'. printFilePageLoop d u p i n t = (r, t') \<Longrightarrow>
      \<exists>cs. inspected t' = inspected t @ cs"
    using printFilePageLoop_inspected by (metis snd_conv)
  show ?thesis
    by (auto simp: validatePrint_def validatePrintFile_def validatePrintCover_def Let_def
        split: option.splits sum.splits prod.splits dest!: loop)
qed


section \<open>The steps before validation\<close>

lemma publishChecks_validation:
  assumes "args_uuid a = Some u" and "user ctx = Some usr"
    and "findFirstRelease (prisma s) u = Some rel"
    and "user_id usr \<in> set (admins d) \<or> userId rel = user_id usr"
    and "status rel \<noteq> Some ''published''"
    and "findFirstStoreBook (prisma s) (storeBookId rel) = Some book"
    and "storeBook_status book = Some ''published'' \<or> storeBook_status book = Some ''hidden''"
  shows "publishChecks d a ctx s =
     (case throwValidationError (argErrors d a) of
        Inl e \<Rightarrow> (Inl e, s)
      | Inr _ \<Rightarrow>
          (case (printCover (prisma s) rel, printFile (prisma s) rel) of
             (Some pc, Some pf) \<Rightarrow>
               (case validatePrint d pc pf s of
                  (Inl e, s') \<Rightarrow> (Inl e, s')
                | (Inr _, s') \<Rightarrow> (Inr (Some rel), s'))
           | _ \<Rightarrow> (Inr (Some rel), s)))"
proof -
  have auth: "\<not> (user_id usr \<notin> set (admins d) \<and> userId rel \<noteq> user_id usr)"
    using assms(4) by blast
  have parent: "\<not> (storeBook_status book \<noteq> Some ''published'' \<and>
      storeBook_status book \<noteq> Some ''hidden'')"
    using assms(7) by blast
  show ?thesis
    unfolding publishChecks_def Let_def
    by (simp only: assms(1,2,3,5,6) auth parent option.case if_False)
qed

lemma find_distinct_id:
  assumes "distinct (map f xs)" and "x \<in> set xs"
  shows "find (\<lambda>y. f y = f x) xs = Some x"
  using assms by (induction xs) (auto simp: image_iff)

lemma updateWhere_map:
  assumes "distinct (map f xs)"
  shows "updateWhere (\<lambda>y. f y = i) g xs = map (\<lambda>y. if f y = i then g y else y) xs"
  using assms
proof (induction xs)
  case Nil
  then show ?case by simp
next
  case (Cons x xs)
  show ?case
  proof (cases "f x = i")
    case True
    with Cons.prems have "\<forall>y\<in>set xs. f y \<noteq> i" by (auto simp: image_iff)
    then have "map (\<lambda>y. if f y = i then g y else y) xs = xs"
      by (simp add: map_idI)
    with True show ?thesis by simp
  next
    case False
    with Cons show ?thesis by simp
  qed
qed

lemma updateWhere_ids:
  assumes "\<And>x. f (g x) = f x"
  shows "map f (updateWhere p g xs) = map f xs"
  using assms by (induction xs) auto

lemma find_Some_mem: "find p xs = Some x \<Longrightarrow> x \<in> set xs \<and> p x"
  by (induction xs) (auto split: if_splits)



lemma status_default:
  "(if status r = None then r\<lparr>status := Some ''unpublished''\<rparr> else r) =
   r\<lparr>status := Some (case status r of None \<Rightarrow> ''unpublished'' | Some st \<Rightarrow> st)\<rparr>"
  by (cases "status r") simp_all

section \<open>retrieveStoreBookRelease on a uuid without a release\<close>

text \<open>
  C10. When no stored release has the given uuid, \<^verbatim>\<open>retrieveStoreBookRelease\<close> ends
  in the runtime's \<^verbatim>\<open>TypeError\<close> (it reads \<^verbatim>\<open>status\<close> of the \<^verbatim>\<open>null\<close> that
  \<^verbatim>\<open>findFirst\<close> returned): it returns neither \<^verbatim>\<open>null\<close> nor an API error. Whenever
  it returns, a release with that uuid is stored and the result is the first such
  release, with \<^verbatim>\<open>unpublished\<close> in place of a missing status.
\<close>

theorem retrieveStoreBookRelease_missing_or_found:
  "((\<forall>r \<in> set (storeBookRelease (prisma s)). uuid r \<noteq> u) \<longrightarrow>
      retrieveStoreBookRelease (Some u) s = Inl TypeError) \<and>
   (\<forall>r'. retrieveStoreBookRelease (Some u) s = Inr r' \<longrightarrow>
      (\<exists>r \<in> set (storeBookRelease (prisma s)). uuid r = u \<and>
         findFirstRelease (prisma s) u = Some r \<and>
         r' = Some (r\<lparr>status := Some (case status r of None \<Rightarrow> ''unpublished'' | Some st \<Rightarrow> st)\<rparr>)))"
proof (cases "findFirstRelease (prisma s) u")
  case None
  then have err: "retrieveStoreBookRelease (Some u) s = Inl TypeError"
    by (simp only: retrieveStoreBookRelease_def option.case)
  show ?thesis
  proof (intro conjI impI allI)
    show "retrieveStoreBookRelease (Some u) s = Inl TypeError" by (rule err)
  next
    fix r'
    assume "retrieveStoreBookRelease (Some u) s = Inr r'"
    with err have False by (simp only: sum.distinct)
    then show "\<exists>r \<in> set (storeBookRelease (prisma s)). uuid r = u \<and>
         findFirstRelease (prisma s) u = Some r \<and>
         r' = Some (r\<lparr>status := Some (case status r of None \<Rightarrow> ''unpublished'' | Some st \<Rightarrow> st)\<rparr>)" ..
  qed
next
  case (Some r)
  then have mem: "r \<in> set (storeBookRelease (prisma s))" and uu: "uuid r = u"
    unfolding findFirstRelease_def by (auto dest: find_Some_mem)
  have res: "retrieveStoreBookRelease (Some u) s =
      Inr (Some (r\<lparr>status := Some (case status r of None \<Rightarrow> ''unpublished'' | Some st \<Rightarrow> st)\<rparr>))"
    using Some by (simp only: retrieveStoreBookRelease_def option.case status_default)
  show ?thesis
  proof (intro conjI impI allI)
    assume "\<forall>r \<in> set (storeBookRelease (prisma s)). uuid r \<noteq> u"
    with mem uu have False by blast
    then show "retrieveStoreBookRelease (Some u) s = Inl TypeError" ..
  next
    fix r'
    assume "retrieveStoreBookRelease (Some u) s = Inr r'"
    with res have "r' = Some (r\<lparr>status := Some (case status r of None \<Rightarrow> ''unpublished'' | Some st \<Rightarrow> st)\<rparr>)"
      by (simp only: sum.inject)
    with mem uu Some show "\<exists>r \<in> set (storeBookRelease (prisma s)). uuid r = u \<and>
         findFirstRelease (prisma s) u = Some r \<and>
         r' = Some (r\<lparr>status := Some (case status r of None \<Rightarrow> ''unpublished'' | Some st \<Rightarrow> st)\<rparr>)"
      by (intro bexI[of _ r] conjI)
  qed
qed

theorem retrieveStoreBookRelease_missing_or_found_witness:
  "retrieveStoreBookRelease (Some ''R9'') exampleState = Inl TypeError \<and>
   retrieveStoreBookRelease (Some ''R1'') exampleState =
     Inr (Some ((exampleRelease 1 ''R1'' 10)\<lparr>status := Some ''unpublished''\<rparr>))"
proof -
  have missing: "\<forall>r \<in> set (storeBookRelease (prisma exampleState)). uuid r \<noteq> ''R9''"
    by (simp add: example_defs)
  have found: "retrieveStoreBookRelease (Some ''R1'') exampleState =
     Inr (Some ((exampleRelease 1 ''R1'' 10)\<lparr>status := Some ''unpublished''\<rparr>))"
    by (simp add: example_defs resolver_defs)
  from retrieveStoreBookRelease_missing_or_found [of exampleState "''R9''"] missing
  have "retrieveStoreBookRelease (Some ''R9'') exampleState = Inl TypeError"
    by blast
  with found show ?thesis by simp
qed

lemma publishStoreBookRelease_error:
  "publishChecks d a ctx s = (Inl e, s') \<Longrightarrow> publishStoreBookRelease d a ctx s = (Inl e, s')"
  by (simp add: publishStoreBookRelease_def publishWrite_def)

section \<open>The parent store book\<close>

text \<open>
  C7. When the checks on the caller and on the release have passed and the status of the
  parent store book is neither \<^verbatim>\<open>published\<close> nor \<^verbatim>\<open>hidden\<close>, the call ends in
  \<^verbatim>\<open>storeBookNotPublished\<close>, whatever the checks and the documents are, and the state
  is the one before the call: no document is read and no row is written.
\<close>

theorem publish_parent_not_published:
  assumes "args_uuid a = Some u" and "user ctx = Some usr"
    and "findFirstRelease (prisma s) u = Some rel"
    and "user_id usr \<in> set (admins d) \<or> userId rel = user_id usr"
    and "status rel \<noteq> Some ''published''"
    and "findFirstStoreBook (prisma s) (storeBookId rel) = Some book"
    and "storeBook_status book \<noteq> Some ''published''"
    and "storeBook_status book \<noteq> Some ''hidden''"
  shows "publishStoreBookRelease d a ctx s = (Inl (GraphQLError storeBookNotPublished), s)"
proof -
  have auth: "\<not> (user_id usr \<notin> set (admins d) \<and> userId rel \<noteq> user_id usr)"
    using assms(4) by blast
  have parent: "storeBook_status book \<noteq> Some ''published'' \<and> storeBook_status book \<noteq> Some ''hidden''"
    using assms(7,8) by blast
  have "publishChecks d a ctx s = (Inl (GraphQLError storeBookNotPublished), s)"
    unfolding publishChecks_def Let_def throwApiError_def
    by (simp only: assms(1,2,3,5,6) auth parent option.case if_False if_True simp_thms)
  then show ?thesis by (rule publishStoreBookRelease_error)
qed

theorem publish_parent_not_published_witness:
  "publishStoreBookRelease exampleDeps (exampleArgs ''R4'' ''First Edition'') (exampleUser 7)
     exampleState =
   (Inl (GraphQLError storeBookNotPublished), exampleState)"
proof -
  let ?book = "\<lparr>storeBook_id = 11, storeBook_status = Some ''review''\<rparr>"
  have "args_uuid (exampleArgs ''R4'' ''First Edition'') = Some ''R4''"
    and "user (exampleUser 7) = Some \<lparr>user_id = 7\<rparr>"
    and "findFirstRelease (prisma exampleState) ''R4'' = Some (exampleRelease 4 ''R4'' 11)"
    and "user_id \<lparr>user_id = 7\<rparr> \<in> set (admins exampleDeps) \<or>
         userId (exampleRelease 4 ''R4'' 11) = user_id \<lparr>user_id = 7\<rparr>"
    and "status (exampleRelease 4 ''R4'' 11) \<noteq> Some ''published''"
    and "findFirstStoreBook (prisma exampleState) (storeBookId (exampleRelease 4 ''R4'' 11)) = Some ?book"
    and "storeBook_status ?book \<noteq> Some ''published''"
    and "storeBook_status ?book \<noteq> Some ''hidden''"
    by (simp_all add: example_defs findFirstRelease_def findFirstStoreBook_def)
  then show ?thesis by (rule publish_parent_not_published)
qed

text \<open>
  C8. The release \<^verbatim>\<open>R5\<close> belongs to store book 12, which is not stored. The lookup of
  the store book returns \<^verbatim>\<open>null\<close> and the resolver reads its \<^verbatim>\<open>status\<close>: the call of
  the owner ends in the runtime's \<^verbatim>\<open>TypeError\<close>, not in an API error.
\<close>

theorem publish_missing_storeBook:
  "findFirstStoreBook (prisma exampleState) (storeBookId (exampleRelease 5 ''R5'' 12)) = None \<and>
   publishStoreBookRelease exampleDeps (exampleArgs ''R5'' ''First Edition'') (exampleUser 7)
     exampleState = (Inl TypeError, exampleState)"
  by (simp add: example_defs resolver_defs)

section \<open>The order of the first checks\<close>

text \<open>
  C9, as the resolver has it. A call without an identity ends in \<^verbatim>\<open>notAuthenticated\<close>
  before the release is loaded, whether the release exists or not. With an identity, the
  release is loaded next, and a uuid without a release ends in
  \<^verbatim>\<open>storeBookReleaseDoesNotExist\<close> for every identity, before the ownership check.
  The state is the one before the call.
\<close>

theorem publish_authentication_then_not_found:
  assumes "args_uuid a = Some u"
  shows "(user ctx = None \<longrightarrow>
        publishStoreBookRelease d a ctx s = (Inl (GraphQLError notAuthenticated), s)) \<and>
     (user ctx \<noteq> None \<and> findFirstRelease (prisma s) u = None \<longrightarrow>
        publishStoreBookRelease d a ctx s = (Inl (GraphQLError storeBookReleaseDoesNotExist), s))"
proof (intro conjI impI)
  assume "user ctx = None"
  then have "publishChecks d a ctx s = (Inl (GraphQLError notAuthenticated), s)"
    unfolding publishChecks_def Let_def throwApiError_def
    by (simp only: assms option.case)
  then show "publishStoreBookRelease d a ctx s = (Inl (GraphQLError notAuthenticated), s)"
    by (rule publishStoreBookRelease_error)
next
  assume h: "user ctx \<noteq> None \<and> findFirstRelease (prisma s) u = None"
  then obtain usr where usr: "user ctx = Some usr" by blast
  from h have "publishChecks d a ctx s = (Inl (GraphQLError storeBookReleaseDoesNotExist), s)"
    unfolding publishChecks_def Let_def throwApiError_def
    by (simp only: assms usr option.case)
  then show "publishStoreBookRelease d a ctx s =
      (Inl (GraphQLError storeBookReleaseDoesNotExist), s)"
    by (rule publishStoreBookRelease_error)
qed

theorem publish_authentication_then_not_found_witness:
  "publishStoreBookRelease exampleDeps (exampleArgs ''R1'' ''First Edition'') \<lparr>user = None\<rparr>
     exampleState = (Inl (GraphQLError notAuthenticated), exampleState) \<and>
   publishStoreBookRelease exampleDeps (exampleArgs ''R9'' ''First Edition'') (exampleUser 8)
     exampleState = (Inl (GraphQLError storeBookReleaseDoesNotExist), exampleState)"
proof -
  have a1: "args_uuid (exampleArgs ''R1'' ''First Edition'') = Some ''R1''"
    and a9: "args_uuid (exampleArgs ''R9'' ''First Edition'') = Some ''R9''"
    and none: "user \<lparr>user = None\<rparr> = None"
    and some: "user (exampleUser 8) \<noteq> None \<and> findFirstRelease (prisma exampleState) ''R9'' = None"
    by (simp_all add: example_defs findFirstRelease_def)
  from publish_authentication_then_not_found
      [OF a1, where ctx = "\<lparr>user = None\<rparr>" and d = exampleDeps and s = exampleState]
    publish_authentication_then_not_found
      [OF a9, where ctx = "exampleUser 8" and d = exampleDeps and s = exampleState]
    none some
  show ?thesis by blast
qed

text \<open>
  C9, as stated, fails: no release has the uuid \<^verbatim>\<open>R9\<close>, and the call without an
  identity ends in \<^verbatim>\<open>notAuthenticated\<close>, not in \<^verbatim>\<open>storeBookReleaseDoesNotExist\<close>.
\<close>

theorem publish_not_found_first_counterexample:
  "findFirstRelease (prisma exampleState) ''R9'' = None \<and>
   publishStoreBookRelease exampleDeps (exampleArgs ''R9'' ''First Edition'') \<lparr>user = None\<rparr>
     exampleState = (Inl (GraphQLError notAuthenticated), exampleState) \<and>
   GraphQLError notAuthenticated \<noteq> GraphQLError storeBookReleaseDoesNotExist"
  by (simp add: example_defs resolver_defs)

section \<open>The update\<close>

lemma publishChecks_passed:
  assumes "publishChecks d a ctx s = (Inr (Some rel), s1)"
  shows "\<exists>u usr book.
     args_uuid a = Some u \<and> user ctx = Some usr \<and>
     findFirstRelease (prisma s) u = Some rel \<and>
     (user_id usr \<in> set (admins d) \<or> userId rel = user_id usr) \<and>
     status rel \<noteq> Some ''published'' \<and>
     findFirstStoreBook (prisma s) (storeBookId rel) = Some book \<and>
     (storeBook_status book = Some ''published'' \<or> storeBook_status book = Some ''hidden'') \<and>
     throwValidationError (argErrors d a) = Inr ()"
proof -
  from assms obtain u where u: "args_uuid a = Some u"
    by (cases "args_uuid a") (simp_all add: publishChecks_def)
  from assms u obtain usr where usr: "user ctx = Some usr"
    by (cases "user ctx") (simp_all add: publishChecks_def throwApiError_def)
  from assms u usr obtain r where r: "findFirstRelease (prisma s) u = Some r"
    by (cases "findFirstRelease (prisma s) u")
       (simp_all add: publishChecks_def throwApiError_def Let_def)
  from assms u usr r
  have auth: "user_id usr \<in> set (admins d) \<or> userId r = user_id usr"
    and st: "status r \<noteq> Some ''published''"
    by (auto simp: publishChecks_def throwApiError_def Let_def split: if_splits)
  then have auth': "\<not> (user_id usr \<notin> set (admins d) \<and> userId r \<noteq> user_id usr)"
    by blast
  note simps1 = u usr r auth' st option.case if_False simp_thms
  from assms obtain book where book: "findFirstStoreBook (prisma s) (storeBookId r) = Some book"
    unfolding publishChecks_def Let_def throwApiError_def
    by (cases "findFirstStoreBook (prisma s) (storeBookId r)") (simp_all only: simps1, simp_all)
  from assms
  have parent: "storeBook_status book = Some ''published'' \<or> storeBook_status book = Some ''hidden''"
    unfolding publishChecks_def Let_def throwApiError_def
    by (simp only: simps1 book) (auto split: if_splits)
  from publishChecks_validation [OF u usr r auth st book parent, of ] assms
  have ok: "throwValidationError (argErrors d a) = Inr ()" and same: "r = rel"
    by (auto split: sum.splits option.splits prod.splits)
  from u usr r auth st book parent ok same show ?thesis by blast
qed

lemma updateRelease_distinct:
  assumes "distinct (map release_id (storeBookRelease (prisma s)))"
    and "rel \<in> set (storeBookRelease (prisma s))"
  shows "updateRelease (release_id rel) f s =
     (Inr (Some (f rel)),
      s\<lparr>prisma := (prisma s)\<lparr>storeBookRelease :=
           map (\<lambda>x. if release_id x = release_id rel then f x else x)
             (storeBookRelease (prisma s))\<rparr>\<rparr>)"
  using find_distinct_id [OF assms] updateWhere_map [OF assms(1), of "release_id rel" f]
  by (simp only: updateRelease_def option.case)

lemma updateRelease_frame:
  "inspected (snd (updateRelease i f s)) = inspected s \<and>
   storeBook (prisma (snd (updateRelease i f s))) = storeBook (prisma s)"
  by (cases "find (\<lambda>r. release_id r = i) (storeBookRelease (prisma s))")
     (simp_all add: updateRelease_def)


lemma publishStoreBookRelease_inspected:
  "inspected (snd (publishStoreBookRelease d a ctx s)) = inspected (snd (publishChecks d a ctx s))"
proof -
  obtain c s1 where pc: "publishChecks d a ctx s = (c, s1)"
    by (cases "publishChecks d a ctx s")
  have "inspected (snd (publishWrite d a c s1)) = inspected s1"
    by (cases c) (auto simp: publishWrite_def updateRelease_frame split: option.splits)
  with pc show ?thesis
    by (simp add: publishStoreBookRelease_def)
qed

lemma argErrors_pass:
  assumes "validateReleaseNameLength d (args_releaseName a) = None"
    and "case args_releaseNotes a of Defined notes \<Rightarrow> validateReleaseNotesLength d notes = None
         | _ \<Rightarrow> True"
  shows "throwValidationError (argErrors d a) = Inr ()"
  using assms
  by (cases "args_releaseNotes a")
     (simp_all add: argErrors_def throwValidationError_def List.map_filter_def)

lemma example_distinct: "distinct (map release_id (storeBookRelease (prisma exampleState)))"
  by (simp add: example_defs)

lemma example_R1_checks:
  "publishChecks exampleDeps (exampleArgs ''R1'' ''First Edition'') (exampleUser 7) exampleState =
   (Inr (Some (exampleRelease 1 ''R1'' 10)), exampleState)"
  by (simp add: example_defs resolver_defs)

lemma example_R2_checks:
  "publishChecks exampleDeps (exampleArgs ''R2'' ''First Edition'') (exampleUser 7) exampleState =
   (Inl (ValidationFailed [''print_file_pages_invalid'']),
    exampleState\<lparr>inspected := [GetDocument ''cdn/F1'']\<rparr>)"
  by (simp add: example_defs resolver_defs)

section \<open>The print stage\<close>

lemma publishChecks_print:
  assumes "args_uuid a = Some u" and "user ctx = Some usr"
    and "findFirstRelease (prisma s) u = Some rel"
    and "user_id usr \<in> set (admins d) \<or> userId rel = user_id usr"
    and "status rel \<noteq> Some ''published''"
    and "findFirstStoreBook (prisma s) (storeBookId rel) = Some book"
    and "storeBook_status book = Some ''published'' \<or> storeBook_status book = Some ''hidden''"
    and "throwValidationError (argErrors d a) = Inr ()"
  shows "publishChecks d a ctx s =
     (case (printCover (prisma s) rel, printFile (prisma s) rel) of
        (Some pc, Some pf) \<Rightarrow>
          (case validatePrint d pc pf s of
             (Inl e, s') \<Rightarrow> (Inl e, s')
           | (Inr _, s') \<Rightarrow> (Inr (Some rel), s'))
      | _ \<Rightarrow> (Inr (Some rel), s))"
  using publishChecks_validation [OF assms(1-7), of ]
  by (simp only: assms(8) sum.case)

lemma example_R6_inspected:
  "inspected (snd (publishStoreBookRelease exampleDeps (exampleArgs ''R6'' ''First Edition'')
      (exampleUser 7) exampleState)) =
   [GetDocument ''cdn/F2'', GetPage ''cdn/F2'' 1, GetPage ''cdn/F2'' 2, GetPage ''cdn/F2'' 3,
    GetPage ''cdn/F2'' 4, GetDocument ''cdn/C2'', GetPage ''cdn/C2'' 1]"
  by (simp add: example_defs resolver_defs)

section \<open>The pages of the print file\<close>

lemma validatePrintFile_result:
  assumes "getDocument d url = Some pdf"
    and "validateStoreBookPrintFilePages d (numPages pdf) = None"
  shows "fst (validatePrintFile d url s) =
     (case find (\<lambda>p. validateStoreBookPrintFilePageSize d (view_w p) (view_h p) \<noteq> None)
             (pages pdf) of
        None \<Rightarrow> Inr pdf
      | Some p \<Rightarrow>
          Inl (ValidationFailed [the (validateStoreBookPrintFilePageSize d (view_w p) (view_h p))]))"
proof -
  let ?s1 = "s\<lparr>inspected := inspected s @ [GetDocument url]\<rparr>"
  obtain r s2 where loop: "printFilePageLoop d url pdf 1 (numPages pdf) ?s1 = (r, s2)"
    by (cases "printFilePageLoop d url pdf 1 (numPages pdf) ?s1")
  have r: "r = (case find (\<lambda>p. validateStoreBookPrintFilePageSize d (view_w p) (view_h p) \<noteq> None)
             (pages pdf) of
        None \<Rightarrow> Inr ()
      | Some p \<Rightarrow>
          Inl (ValidationFailed [the (validateStoreBookPrintFilePageSize d (view_w p) (view_h p))]))"
    using printFilePageLoop_result [of 1 "numPages pdf" pdf d url ?s1] loop by simp
  have "validatePrintFile d url s =
      (case r of Inl e \<Rightarrow> (Inl e, s2) | Inr _ \<Rightarrow> (Inr pdf, s2))"
    using assms loop
    by (simp add: validatePrintFile_def Let_def throwValidationError_single)
  with r show ?thesis
    by (simp split: option.splits)
qed









section \<open>How validation failures are reported\<close>






section \<open>Two calls on one release\<close>


lemma publishData_keeps [simp]:
  "release_id (publishData d a r) = release_id r"
  "uuid (publishData d a r) = uuid r"
  "userId (publishData d a r) = userId r"
  "status (publishData d a r) = Some ''published''"
  by (simp_all add: publishData_def)

lemma publishStoreBookRelease_status_published:
  assumes "args_uuid a = Some u" and "user ctx = Some usr"
    and "findFirstRelease (prisma s) u = Some rel"
    and "user_id usr \<in> set (admins d) \<or> userId rel = user_id usr"
    and "status rel = Some ''published''"
  shows "publishStoreBookRelease d a ctx s =
     (Inl (GraphQLError storeBookReleaseAlreadyPublished), s)"
proof -
  have auth: "\<not> (user_id usr \<notin> set (admins d) \<and> userId rel \<noteq> user_id usr)"
    using assms(4) by blast
  have "publishChecks d a ctx s = (Inl (GraphQLError storeBookReleaseAlreadyPublished), s)"
    unfolding publishChecks_def Let_def throwApiError_def
    by (simp only: assms(1,2,3,5) auth option.case if_False if_True simp_thms)
  then show ?thesis by (rule publishStoreBookRelease_error)
qed


section \<open>The outcome of the checks\<close>

lemma publishStoreBookRelease_passed:
  assumes "distinct (map release_id (storeBookRelease (prisma s)))"
    and pc: "publishChecks d a ctx s = (Inr (Some rel), s1)"
  shows "publishStoreBookRelease d a ctx s =
     (Inr (Some (publishData d a rel)),
      s1\<lparr>prisma := (prisma s)\<lparr>storeBookRelease :=
           map (\<lambda>x. if release_id x = release_id rel then publishData d a x else x)
             (storeBookRelease (prisma s))\<rparr>\<rparr>)"
proof -
  from publishChecks_passed [OF pc] obtain u where "findFirstRelease (prisma s) u = Some rel"
    by blast
  then have mem: "rel \<in> set (storeBookRelease (prisma s))"
    unfolding findFirstRelease_def by (auto dest: find_Some_mem)
  have same: "prisma s1 = prisma s"
    using publishChecks_prisma [of d a ctx s] pc by simp
  have "publishStoreBookRelease d a ctx s = updateRelease (release_id rel) (publishData d a) s1"
    using pc by (simp add: publishStoreBookRelease_def publishWrite_def)
  also have "\<dots> =
     (Inr (Some (publishData d a rel)),
      s1\<lparr>prisma := (prisma s1)\<lparr>storeBookRelease :=
           map (\<lambda>x. if release_id x = release_id rel then publishData d a x else x)
             (storeBookRelease (prisma s1))\<rparr>\<rparr>)"
    using assms(1) mem same by (intro updateRelease_distinct) simp_all
  finally show ?thesis
    by (simp only: same)
qed

lemma publishStoreBookRelease_failed:
  assumes "fst (publishChecks d a ctx s) = Inl e"
  shows "fst (publishStoreBookRelease d a ctx s) = Inl e"
    and "prisma (snd (publishStoreBookRelease d a ctx s)) = prisma s"
proof -
  obtain s1 where pc: "publishChecks d a ctx s = (Inl e, s1)"
    using assms by (cases "publishChecks d a ctx s") simp
  then have res: "publishStoreBookRelease d a ctx s = (Inl e, s1)"
    by (rule publishStoreBookRelease_error)
  then show "fst (publishStoreBookRelease d a ctx s) = Inl e" by simp
  from publishChecks_prisma [of d a ctx s] pc res
  show "prisma (snd (publishStoreBookRelease d a ctx s)) = prisma s" by simp
qed

lemma argErrors_pass_iff:
  "(throwValidationError (argErrors d a) = Inr ()) =
   (validateReleaseNameLength d (args_releaseName a) = None \<and>
    (case args_releaseNotes a of
       Defined notes \<Rightarrow> validateReleaseNotesLength d notes = None
     | _ \<Rightarrow> True))"
  by (cases "args_releaseNotes a")
     (auto simp: argErrors_def throwValidationError_def List.map_filter_def)

lemma throwValidationError_cases:
  "throwValidationError es = Inr () \<or> (\<exists>ms. throwValidationError es = Inl (ValidationFailed ms))"
  by (simp add: throwValidationError_def Let_def)

lemma validatePrintFile_outcome:
  "fst (validatePrintFile d url s) =
     (case getDocument d url of
        None \<Rightarrow> Inl DocumentError
      | Some pdf \<Rightarrow>
          (case validateStoreBookPrintFilePages d (numPages pdf) of
             Some m \<Rightarrow> Inl (ValidationFailed [m])
           | None \<Rightarrow>
               (case find (\<lambda>p. validateStoreBookPrintFilePageSize d (view_w p) (view_h p) \<noteq> None)
                       (pages pdf) of
                  None \<Rightarrow> Inr pdf
                | Some p \<Rightarrow>
                    Inl (ValidationFailed
                      [the (validateStoreBookPrintFilePageSize d (view_w p) (view_h p))]))))"
proof (cases "getDocument d url")
  case None
  then show ?thesis by (simp add: validatePrintFile_def Let_def)
next
  case (Some pdf)
  show ?thesis
  proof (cases "validateStoreBookPrintFilePages d (numPages pdf)")
    case None
    from validatePrintFile_result [OF Some None, of s] Some None show ?thesis by simp
  next
    case (Some m)
    with \<open>getDocument d url = Some pdf\<close> show ?thesis
      by (simp add: validatePrintFile_def Let_def throwValidationError_single)
  qed
qed

lemma validatePrintCover_outcome:
  "fst (validatePrintCover d url filePdf s) =
     (case getDocument d url of
        None \<Rightarrow> Inl DocumentError
      | Some coverPdf \<Rightarrow>
          (case validateStoreBookPrintCoverPages d (numPages coverPdf) of
             Some m \<Rightarrow> Inl (ValidationFailed [m])
           | None \<Rightarrow>
               (case getPage coverPdf 1 of
                  None \<Rightarrow> Inl DocumentError
                | Some c \<Rightarrow>
                    (case validateStoreBookPrintCoverPageSize d (view_w c) (view_h c)
                            (numPages filePdf) of
                       None \<Rightarrow> Inr ()
                     | Some m \<Rightarrow> Inl (ValidationFailed [m])))))"
  by (simp add: validatePrintCover_def Let_def throwValidationError_single split: option.splits)

lemma find_None_list_all:
  "(find (\<lambda>p. f p \<noteq> None) xs = None) = list_all (\<lambda>p. f p = None) xs"
  by (induction xs) auto

lemma validatePrint_fst:
  "fst (validatePrint d pc pf s) =
     (case fst (validatePrintFile d (getTableObjectFileUrl d (printFile_uuid pf)) s) of
        Inl e \<Rightarrow> Inl e
      | Inr filePdf \<Rightarrow>
          fst (validatePrintCover d (getTableObjectFileUrl d (printCover_uuid pc)) filePdf
                 (snd (validatePrintFile d (getTableObjectFileUrl d (printFile_uuid pf)) s))))"
  by (cases "validatePrintFile d (getTableObjectFileUrl d (printFile_uuid pf)) s")
     (simp add: validatePrint_def Let_def split: sum.splits)

text \<open>The print stage of the resolver passes exactly when the four checks pass.\<close>

lemma validatePrint_pass_iff:
  "(fst (validatePrint d pc pf s) = Inr ()) = printChecksPass d pc pf"
  unfolding validatePrint_fst validatePrintFile_outcome validatePrintCover_outcome
    printChecksPass_def
  by (simp add: find_None_list_all [symmetric] split: option.splits sum.splits)

lemma validatePrint_cases:
  "fst (validatePrint d pc pf s) = Inr () \<or>
   fst (validatePrint d pc pf s) = Inl DocumentError \<or>
   (\<exists>m. fst (validatePrint d pc pf s) = Inl (ValidationFailed [m]))"
  unfolding validatePrint_fst validatePrintFile_outcome validatePrintCover_outcome
  by (simp split: option.splits sum.splits)

lemma validatePrint_failure:
  assumes "\<not> printChecksPass d pc pf"
  shows "fst (validatePrint d pc pf s) = Inl DocumentError \<or>
     (\<exists>m. fst (validatePrint d pc pf s) = Inl (ValidationFailed [m]))"
  using assms validatePrint_cases [of d pc pf s] validatePrint_pass_iff [of d pc pf s]
  by blast


lemma publishChecks_fst:
  assumes "args_uuid a = Some u" and "user ctx = Some usr"
    and "findFirstRelease (prisma s) u = Some rel"
  shows "fst (publishChecks d a ctx s) =
     (if \<not> (user_id usr \<in> set (admins d) \<or> userId rel = user_id usr)
        then Inl (GraphQLError actionNotAllowed)
      else if status rel = Some ''published''
        then Inl (GraphQLError storeBookReleaseAlreadyPublished)
      else
        (case findFirstStoreBook (prisma s) (storeBookId rel) of
           None \<Rightarrow> Inl TypeError
         | Some book \<Rightarrow>
             if \<not> (storeBook_status book = Some ''published'' \<or>
                    storeBook_status book = Some ''hidden'')
               then Inl (GraphQLError storeBookNotPublished)
             else
               (case throwValidationError (argErrors d a) of
                  Inl e \<Rightarrow> Inl e
                | Inr _ \<Rightarrow>
                    (case (printCover (prisma s) rel, printFile (prisma s) rel) of
                       (Some pc, Some pf) \<Rightarrow>
                         (case fst (validatePrint d pc pf s) of
                            Inl e \<Rightarrow> Inl e
                          | Inr _ \<Rightarrow> Inr (Some rel))
                     | _ \<Rightarrow> Inr (Some rel)))))"
  using assms
  by (auto simp: publishChecks_def Let_def throwApiError_def
      split: option.splits sum.splits prod.splits)

text \<open>
  When the caller has an identity and the release is stored, the checks of the resolver
  pass exactly when the caller is an administrator or the owner, the release is not
  published, its store book is stored with the status \<^verbatim>\<open>published\<close> or \<^verbatim>\<open>hidden\<close>, the
  name and the notes pass their checks and, with both print assets attached, the four
  checks of the print stage pass. Otherwise they end in an error.
\<close>

lemma publishChecks_outcome:
  assumes "args_uuid a = Some u" and "user ctx = Some usr"
    and "findFirstRelease (prisma s) u = Some rel"
  shows "fst (publishChecks d a ctx s) =
     (if (user_id usr \<in> set (admins d) \<or> userId rel = user_id usr) \<and>
         status rel \<noteq> Some ''published'' \<and>
         (case findFirstStoreBook (prisma s) (storeBookId rel) of
            None \<Rightarrow> False
          | Some book \<Rightarrow>
              storeBook_status book = Some ''published'' \<or>
              storeBook_status book = Some ''hidden'') \<and>
         validateReleaseNameLength d (args_releaseName a) = None \<and>
         (case args_releaseNotes a of
            Defined notes \<Rightarrow> validateReleaseNotesLength d notes = None
          | _ \<Rightarrow> True) \<and>
         (case (printCover (prisma s) rel, printFile (prisma s) rel) of
            (Some pc, Some pf) \<Rightarrow> printChecksPass d pc pf
          | _ \<Rightarrow> True)
      then Inr (Some rel)
      else Inl (case fst (publishChecks d a ctx s) of Inl e \<Rightarrow> e | Inr _ \<Rightarrow> TypeError))"
proof -
  note f = publishChecks_fst [OF assms, of d]
  consider (noauth) "\<not> (user_id usr \<in> set (admins d) \<or> userId rel = user_id usr)"
    | (published) "user_id usr \<in> set (admins d) \<or> userId rel = user_id usr"
        "status rel = Some ''published''"
    | (nobook) "user_id usr \<in> set (admins d) \<or> userId rel = user_id usr"
        "status rel \<noteq> Some ''published''"
        "findFirstStoreBook (prisma s) (storeBookId rel) = None"
    | (book) book where "user_id usr \<in> set (admins d) \<or> userId rel = user_id usr"
        "status rel \<noteq> Some ''published''"
        "findFirstStoreBook (prisma s) (storeBookId rel) = Some book"
    by (cases "findFirstStoreBook (prisma s) (storeBookId rel)") blast+
  then show ?thesis
  proof cases
    case noauth
    with f show ?thesis by simp
  next
    case published
    with f show ?thesis by simp
  next
    case nobook
    with f show ?thesis by simp
  next
    case book
    show ?thesis
    proof (cases "storeBook_status book = Some ''published'' \<or>
        storeBook_status book = Some ''hidden''")
      case False
      with f book show ?thesis by simp
    next
      case parent: True
      show ?thesis
      proof (cases "throwValidationError (argErrors d a) = Inr ()")
        case False
        with throwValidationError_cases [of "argErrors d a"]
        obtain ms where ms: "throwValidationError (argErrors d a) = Inl (ValidationFailed ms)"
          by blast
        from False have "\<not> (validateReleaseNameLength d (args_releaseName a) = None \<and>
            (case args_releaseNotes a of
               Defined notes \<Rightarrow> validateReleaseNotesLength d notes = None
             | _ \<Rightarrow> True))"
          using argErrors_pass_iff [of d a] by blast
        with f book parent ms show ?thesis by auto
      next
        case args: True
        then have ok: "validateReleaseNameLength d (args_releaseName a) = None \<and>
            (case args_releaseNotes a of
               Defined notes \<Rightarrow> validateReleaseNotesLength d notes = None
             | _ \<Rightarrow> True)"
          using argErrors_pass_iff [of d a] by blast
        show ?thesis
        proof (cases "printCover (prisma s) rel")
          case None
          with f book parent args ok show ?thesis by simp
        next
          case pc: (Some pc)
          show ?thesis
          proof (cases "printFile (prisma s) rel")
            case None
            with f book parent args ok pc show ?thesis by simp
          next
            case pf: (Some pf)
            show ?thesis
            proof (cases "printChecksPass d pc pf")
              case True
              then have "fst (validatePrint d pc pf s) = Inr ()"
                by (simp only: validatePrint_pass_iff)
              with f book parent args ok pc pf True show ?thesis by simp
            next
              case False
              with validatePrint_failure [of d pc pf s]
              obtain e where "fst (validatePrint d pc pf s) = Inl e" by blast
              with f book parent args ok pc pf False show ?thesis by simp
            qed
          qed
        qed
      qed
    qed
  qed
qed

section \<open>A release that is already published\<close>

lemma updateRelease_no_api_error:
  "fst (updateRelease i f s) \<noteq> Inl (GraphQLError e)"
  by (cases "find (\<lambda>r. release_id r = i) (storeBookRelease (prisma s))")
     (simp_all add: updateRelease_def)

lemma publishChecks_not_already_published:
  assumes "args_uuid a = Some u" and "user ctx = Some usr"
    and "findFirstRelease (prisma s) u = Some rel"
    and "status rel \<noteq> Some ''published''"
  shows "fst (publishChecks d a ctx s) \<noteq> Inl (GraphQLError storeBookReleaseAlreadyPublished)"
proof -
  let ?E = "Inl (GraphQLError storeBookReleaseAlreadyPublished) :: error + StoreBookRelease option"
  note f = publishChecks_fst [OF assms(1-3), of d]
  show ?thesis
  proof (cases "user_id usr \<in> set (admins d) \<or> userId rel = user_id usr")
    case False
    with f show ?thesis by simp
  next
    case auth: True
    show ?thesis
    proof (cases "findFirstStoreBook (prisma s) (storeBookId rel)")
      case None
      with f auth assms(4) show ?thesis by simp
    next
      case (Some book)
      show ?thesis
      proof (cases "storeBook_status book = Some ''published'' \<or>
          storeBook_status book = Some ''hidden''")
        case False
        with f auth assms(4) Some show ?thesis by simp
      next
        case parent: True
        from throwValidationError_cases [of "argErrors d a"]
        show ?thesis
        proof
          assume ok: "throwValidationError (argErrors d a) = Inr ()"
          show ?thesis
          proof (cases "printCover (prisma s) rel")
            case None
            with f auth assms(4) Some parent ok show ?thesis by simp
          next
            case pc: (Some pc)
            show ?thesis
            proof (cases "printFile (prisma s) rel")
              case None
              with f auth assms(4) Some parent ok pc show ?thesis by simp
            next
              case pf: (Some pf)
              from f auth assms(4) Some parent ok pc pf
              have eq: "fst (publishChecks d a ctx s) =
                  (case fst (validatePrint d pc pf s) of
                     Inl e \<Rightarrow> Inl e | Inr _ \<Rightarrow> Inr (Some rel))"
                by simp
              from validatePrint_cases [of d pc pf s] show ?thesis
                unfolding eq by auto
            qed
          qed
        next
          assume "\<exists>ms. throwValidationError (argErrors d a) = Inl (ValidationFailed ms)"
          then obtain ms where "throwValidationError (argErrors d a) = Inl (ValidationFailed ms)"
            by blast
          with f auth assms(4) Some parent show ?thesis by simp
        qed
      qed
    qed
  qed
qed

text \<open>
  C3, as the resolver has it. For a caller who is the owner or an administrator: a
  release whose status is \<^verbatim>\<open>published\<close> makes the call end in
  \<^verbatim>\<open>storeBookReleaseAlreadyPublished\<close>, and the state is the one before the call (no row
  is written and no document is read). The test is on the value \<^verbatim>\<open>published\<close> alone: a
  release with any other status, not only a missing status or \<^verbatim>\<open>unpublished\<close>, is never
  answered with \<^verbatim>\<open>storeBookReleaseAlreadyPublished\<close>.
\<close>

theorem publish_already_published:
  assumes "args_uuid a = Some u" and "user ctx = Some usr"
    and "findFirstRelease (prisma s) u = Some rel"
    and "user_id usr \<in> set (admins d) \<or> userId rel = user_id usr"
  shows "(status rel = Some ''published'' \<longrightarrow>
        publishStoreBookRelease d a ctx s =
          (Inl (GraphQLError storeBookReleaseAlreadyPublished), s)) \<and>
     (status rel \<noteq> Some ''published'' \<longrightarrow>
        fst (publishStoreBookRelease d a ctx s) \<noteq>
          Inl (GraphQLError storeBookReleaseAlreadyPublished))"
proof (intro conjI impI)
  assume "status rel = Some ''published''"
  with assms show "publishStoreBookRelease d a ctx s =
      (Inl (GraphQLError storeBookReleaseAlreadyPublished), s)"
    by (rule publishStoreBookRelease_status_published)
next
  assume st: "status rel \<noteq> Some ''published''"
  note no = publishChecks_not_already_published [OF assms(1-3) st, of d]
  obtain c s1 where pc: "publishChecks d a ctx s = (c, s1)"
    by (cases "publishChecks d a ctx s")
  with no have c: "c \<noteq> Inl (GraphQLError storeBookReleaseAlreadyPublished)" by simp
  have "fst (publishWrite d a c s1) \<noteq> Inl (GraphQLError storeBookReleaseAlreadyPublished)"
  proof (cases c)
    case (Inl e)
    with c show ?thesis by (simp add: publishWrite_def)
  next
    case (Inr r)
    then show ?thesis
      by (cases r) (simp_all add: publishWrite_def updateRelease_no_api_error)
  qed
  with pc show "fst (publishStoreBookRelease d a ctx s) \<noteq>
      Inl (GraphQLError storeBookReleaseAlreadyPublished)"
    by (simp add: publishStoreBookRelease_def)
qed

theorem publish_already_published_witness:
  "publishStoreBookRelease exampleDeps (exampleArgs ''R3'' ''Second Edition'') (exampleUser 7)
     exampleState =
   (Inl (GraphQLError storeBookReleaseAlreadyPublished), exampleState) \<and>
   fst (publishStoreBookRelease exampleDeps (exampleArgs ''R1'' ''First Edition'') (exampleUser 7)
     exampleState) \<noteq> Inl (GraphQLError storeBookReleaseAlreadyPublished)"
proof -
  let ?r3 = "(exampleRelease 3 ''R3'' 10)\<lparr>status := Some ''published'', publishedAt := Some 1600000000\<rparr>"
  let ?r1 = "exampleRelease 1 ''R1'' 10"
  have h3: "args_uuid (exampleArgs ''R3'' ''Second Edition'') = Some ''R3''"
    "user (exampleUser 7) = Some \<lparr>user_id = 7\<rparr>"
    "findFirstRelease (prisma exampleState) ''R3'' = Some ?r3"
    "user_id \<lparr>user_id = 7\<rparr> \<in> set (admins exampleDeps) \<or> userId ?r3 = user_id \<lparr>user_id = 7\<rparr>"
    by (simp_all add: example_defs findFirstRelease_def)
  have p3: "status ?r3 = Some ''published''" by (simp add: exampleRelease_def)
  have h1: "args_uuid (exampleArgs ''R1'' ''First Edition'') = Some ''R1''"
    "user (exampleUser 7) = Some \<lparr>user_id = 7\<rparr>"
    "findFirstRelease (prisma exampleState) ''R1'' = Some ?r1"
    "user_id \<lparr>user_id = 7\<rparr> \<in> set (admins exampleDeps) \<or> userId ?r1 = user_id \<lparr>user_id = 7\<rparr>"
    by (simp_all add: example_defs findFirstRelease_def)
  have p1: "status ?r1 \<noteq> Some ''published''" by (simp add: exampleRelease_def)
  from publish_already_published [OF h3] p3 publish_already_published [OF h1] p1
  show ?thesis by blast
qed

text \<open>
  C3, as stated, fails. The status of the release \<^verbatim>\<open>R10\<close> is \<^verbatim>\<open>review\<close>, which is
  neither missing nor \<^verbatim>\<open>unpublished\<close>. The call of its owner is not answered with
  \<^verbatim>\<open>storeBookReleaseAlreadyPublished\<close>: it succeeds, and the stored row is now published.
\<close>

theorem publish_not_unpublished_counterexample:
  "map_option status (findFirstRelease (prisma exampleState) ''R10'') = Some (Some ''review'') \<and>
   fst (publishStoreBookRelease exampleDeps (exampleArgs ''R10'' ''First Edition'') (exampleUser 7)
     exampleState) =
   Inr (Some ((exampleRelease 10 ''R10'' 10)
     \<lparr>status := Some ''published'', releaseName := ''First Edition'',
       publishedAt := Some 1700000000\<rparr>)) \<and>
   findFirstRelease
     (prisma (snd (publishStoreBookRelease exampleDeps (exampleArgs ''R10'' ''First Edition'')
        (exampleUser 7) exampleState))) ''R10'' =
   Some ((exampleRelease 10 ''R10'' 10)
     \<lparr>status := Some ''published'', releaseName := ''First Edition'',
       publishedAt := Some 1700000000\<rparr>)"
  by (simp add: example_defs resolver_defs)

section \<open>The single write\<close>

lemma publishChecks_early:
  assumes "args_uuid a = Some u"
    and "user ctx = None \<or> findFirstRelease (prisma s) u = None"
  shows "\<exists>e. fst (publishChecks d a ctx s) = Inl e"
proof (cases "user ctx")
  case None
  with assms(1) show ?thesis
    by (simp add: publishChecks_def throwApiError_def)
next
  case (Some usr)
  with assms have "findFirstRelease (prisma s) u = None" by simp
  with assms(1) Some show ?thesis
    by (simp add: publishChecks_def throwApiError_def Let_def)
qed

text \<open>
  C4, as the resolver has it. Release ids are unique (\<^verbatim>\<open>id\<close> is the key of the update). A call passes the
  authorization when the caller is an administrator or the owner of the release, the
  already-published check when the status of the release is not \<^verbatim>\<open>published\<close>, the
  parent check when its store book is stored with the status \<^verbatim>\<open>published\<close> or
  \<^verbatim>\<open>hidden\<close>, and the validation when the name and the notes (if given) pass their
  checks and, with both print assets attached, the four checks of the print stage pass.
  When a call passes all of them, it returns the loaded release with \<^verbatim>\<open>status\<close> set to
  \<^verbatim>\<open>published\<close>, \<^verbatim>\<open>releaseName\<close> set to the name of the request, \<^verbatim>\<open>releaseNotes\<close> set
  to the notes of the request (kept as stored when the request leaves the notes out) and
  \<^verbatim>\<open>publishedAt\<close> set to the current time; the store after the call is the store before
  it with this one row replaced. When the caller has no identity, the release is not
  stored, or one of the checks fails, the call ends in an error and the store is the one
  before the call.
\<close>

theorem publish_writes_once:
  assumes "distinct (map release_id (storeBookRelease (prisma s)))"
    and "args_uuid a = Some u"
  shows "(user ctx = None \<or> findFirstRelease (prisma s) u = None \<longrightarrow>
        (\<exists>e. fst (publishStoreBookRelease d a ctx s) = Inl e) \<and>
        prisma (snd (publishStoreBookRelease d a ctx s)) = prisma s) \<and>
     (user ctx = Some usr \<and> findFirstRelease (prisma s) u = Some rel \<longrightarrow>
        (if (user_id usr \<in> set (admins d) \<or> userId rel = user_id usr) \<and>
            status rel \<noteq> Some ''published'' \<and>
            (case findFirstStoreBook (prisma s) (storeBookId rel) of
               None \<Rightarrow> False
             | Some book \<Rightarrow>
                 storeBook_status book = Some ''published'' \<or>
                 storeBook_status book = Some ''hidden'') \<and>
            validateReleaseNameLength d (args_releaseName a) = None \<and>
            (case args_releaseNotes a of
               Defined notes \<Rightarrow> validateReleaseNotesLength d notes = None
             | _ \<Rightarrow> True) \<and>
            (case (printCover (prisma s) rel, printFile (prisma s) rel) of
               (Some pc, Some pf) \<Rightarrow> printChecksPass d pc pf
             | _ \<Rightarrow> True)
         then
           fst (publishStoreBookRelease d a ctx s) =
             Inr (Some (rel\<lparr>status := Some ''published'',
                            releaseName := args_releaseName a,
                            releaseNotes :=
                              (case args_releaseNotes a of
                                 Undefined \<Rightarrow> releaseNotes rel
                               | Null \<Rightarrow> None
                               | Defined notes \<Rightarrow> Some notes),
                            publishedAt := Some (now d)\<rparr>)) \<and>
           prisma (snd (publishStoreBookRelease d a ctx s)) =
             (prisma s)\<lparr>storeBookRelease :=
                map (\<lambda>x. if release_id x = release_id rel
                         then x\<lparr>status := Some ''published'',
                                releaseName := args_releaseName a,
                                releaseNotes :=
                                  (case args_releaseNotes a of
                                     Undefined \<Rightarrow> releaseNotes x
                                   | Null \<Rightarrow> None
                                   | Defined notes \<Rightarrow> Some notes),
                                publishedAt := Some (now d)\<rparr>
                         else x)
                  (storeBookRelease (prisma s))\<rparr>
         else
           (\<exists>e. fst (publishStoreBookRelease d a ctx s) = Inl e) \<and>
           prisma (snd (publishStoreBookRelease d a ctx s)) = prisma s))"
proof (intro conjI impI)
  assume "user ctx = None \<or> findFirstRelease (prisma s) u = None"
  with assms(2) obtain e where e: "fst (publishChecks d a ctx s) = Inl e"
    using publishChecks_early by blast
  from publishStoreBookRelease_failed [OF e]
  show "\<exists>e. fst (publishStoreBookRelease d a ctx s) = Inl e"
    and "prisma (snd (publishStoreBookRelease d a ctx s)) = prisma s"
    by blast+
next
  assume h: "user ctx = Some usr \<and> findFirstRelease (prisma s) u = Some rel"
  then have usr: "user ctx = Some usr" and rel: "findFirstRelease (prisma s) u = Some rel"
    by blast+
  let ?cond = "(user_id usr \<in> set (admins d) \<or> userId rel = user_id usr) \<and>
            status rel \<noteq> Some ''published'' \<and>
            (case findFirstStoreBook (prisma s) (storeBookId rel) of
               None \<Rightarrow> False
             | Some book \<Rightarrow>
                 storeBook_status book = Some ''published'' \<or>
                 storeBook_status book = Some ''hidden'') \<and>
            validateReleaseNameLength d (args_releaseName a) = None \<and>
            (case args_releaseNotes a of
               Defined notes \<Rightarrow> validateReleaseNotesLength d notes = None
             | _ \<Rightarrow> True) \<and>
            (case (printCover (prisma s) rel, printFile (prisma s) rel) of
               (Some pc, Some pf) \<Rightarrow> printChecksPass d pc pf
             | _ \<Rightarrow> True)"
  note out = publishChecks_outcome [OF assms(2) usr rel, of d]
  show "if ?cond
         then
           fst (publishStoreBookRelease d a ctx s) =
             Inr (Some (rel\<lparr>status := Some ''published'',
                            releaseName := args_releaseName a,
                            releaseNotes :=
                              (case args_releaseNotes a of
                                 Undefined \<Rightarrow> releaseNotes rel
                               | Null \<Rightarrow> None
                               | Defined notes \<Rightarrow> Some notes),
                            publishedAt := Some (now d)\<rparr>)) \<and>
           prisma (snd (publishStoreBookRelease d a ctx s)) =
             (prisma s)\<lparr>storeBookRelease :=
                map (\<lambda>x. if release_id x = release_id rel
                         then x\<lparr>status := Some ''published'',
                                releaseName := args_releaseName a,
                                releaseNotes :=
                                  (case args_releaseNotes a of
                                     Undefined \<Rightarrow> releaseNotes x
                                   | Null \<Rightarrow> None
                                   | Defined notes \<Rightarrow> Some notes),
                                publishedAt := Some (now d)\<rparr>
                         else x)
                  (storeBookRelease (prisma s))\<rparr>
         else
           (\<exists>e. fst (publishStoreBookRelease d a ctx s) = Inl e) \<and>
           prisma (snd (publishStoreBookRelease d a ctx s)) = prisma s"
  proof (cases ?cond)
    case True
    have "fst (publishChecks d a ctx s) = Inr (Some rel)"
      by (rule trans [OF out if_P [OF True]])
    then obtain s1 where "publishChecks d a ctx s = (Inr (Some rel), s1)"
      by (cases "publishChecks d a ctx s") simp
    from publishStoreBookRelease_passed [OF assms(1) this]
    have "fst (publishStoreBookRelease d a ctx s) = Inr (Some (publishData d a rel)) \<and>
        prisma (snd (publishStoreBookRelease d a ctx s)) =
          (prisma s)\<lparr>storeBookRelease :=
             map (\<lambda>x. if release_id x = release_id rel then publishData d a x else x)
               (storeBookRelease (prisma s))\<rparr>"
      by simp
    then show ?thesis
      unfolding publishData_def by (subst if_P [OF True])
  next
    case False
    have "fst (publishChecks d a ctx s) =
        Inl (case fst (publishChecks d a ctx s) of Inl e \<Rightarrow> e | Inr _ \<Rightarrow> TypeError)"
      by (rule trans [OF out if_not_P [OF False]])
    from publishStoreBookRelease_failed [OF this]
    have "(\<exists>e. fst (publishStoreBookRelease d a ctx s) = Inl e) \<and>
        prisma (snd (publishStoreBookRelease d a ctx s)) = prisma s"
      by blast
    then show ?thesis
      by (subst if_not_P [OF False])
  qed
qed


theorem publish_writes_once_witness:
  "fst (publishStoreBookRelease exampleDeps (exampleArgs ''R11'' ''First Edition'') (exampleUser 7)
      exampleState) =
     Inr (Some ((exampleRelease 11 ''R11'' 10)
       \<lparr>status := Some ''published'', releaseName := ''First Edition'',
         releaseNotes := Some ''old notes'', publishedAt := Some 1700000000\<rparr>)) \<and>
   storeBookRelease (prisma (snd (publishStoreBookRelease exampleDeps
      (exampleArgs ''R11'' ''First Edition'') (exampleUser 7) exampleState))) =
     butlast (storeBookRelease examplePrisma) @
     [(exampleRelease 11 ''R11'' 10)
        \<lparr>status := Some ''published'', releaseName := ''First Edition'',
          releaseNotes := Some ''old notes'', publishedAt := Some 1700000000\<rparr>] \<and>
   prisma (snd (publishStoreBookRelease exampleDeps (exampleArgs ''R1'' ''First Edition'')
      (exampleUser 8) exampleState)) = examplePrisma \<and>
   prisma (snd (publishStoreBookRelease exampleDeps (exampleArgs ''R1'' ''First Edition'')
      \<lparr>user = None\<rparr> exampleState)) = examplePrisma"
proof -
  let ?r11 = "(exampleRelease 11 ''R11'' 10)\<lparr>releaseNotes := Some ''old notes''\<rparr>"
  have u11: "args_uuid (exampleArgs ''R11'' ''First Edition'') = Some ''R11''"
    and u1: "args_uuid (exampleArgs ''R1'' ''First Edition'') = Some ''R1''"
    by (simp_all add: exampleArgs_def)
  have h11: "user (exampleUser 7) = Some \<lparr>user_id = 7\<rparr> \<and>
      findFirstRelease (prisma exampleState) ''R11'' = Some ?r11"
    and h1: "user (exampleUser 8) = Some \<lparr>user_id = 8\<rparr> \<and>
      findFirstRelease (prisma exampleState) ''R1'' = Some (exampleRelease 1 ''R1'' 10)"
    and h0: "user \<lparr>user = None\<rparr> = None \<or>
      findFirstRelease (prisma exampleState) ''R1'' = None"
    by (simp_all add: example_defs findFirstRelease_def)
  from publish_writes_once [OF example_distinct u11, where ctx = "exampleUser 7"
      and d = exampleDeps and usr = "\<lparr>user_id = 7\<rparr>" and rel = ?r11] h11
  have one: "fst (publishStoreBookRelease exampleDeps (exampleArgs ''R11'' ''First Edition'')
        (exampleUser 7) exampleState) =
      Inr (Some ((exampleRelease 11 ''R11'' 10)
       \<lparr>status := Some ''published'', releaseName := ''First Edition'',
         releaseNotes := Some ''old notes'', publishedAt := Some 1700000000\<rparr>)) \<and>
    storeBookRelease (prisma (snd (publishStoreBookRelease exampleDeps
        (exampleArgs ''R11'' ''First Edition'') (exampleUser 7) exampleState))) =
      butlast (storeBookRelease examplePrisma) @
      [(exampleRelease 11 ''R11'' 10)
        \<lparr>status := Some ''published'', releaseName := ''First Edition'',
          releaseNotes := Some ''old notes'', publishedAt := Some 1700000000\<rparr>]"
    by (simp add: example_defs findFirstStoreBook_def printCover_def printFile_def)
  from publish_writes_once [OF example_distinct u1, where ctx = "exampleUser 8"
      and d = exampleDeps and usr = "\<lparr>user_id = 8\<rparr>" and rel = "exampleRelease 1 ''R1'' 10"] h1
  have two: "prisma (snd (publishStoreBookRelease exampleDeps (exampleArgs ''R1'' ''First Edition'')
      (exampleUser 8) exampleState)) = examplePrisma"
    by (simp add: example_defs findFirstStoreBook_def printCover_def printFile_def)
  from publish_writes_once [OF example_distinct u1, where ctx = "\<lparr>user = None\<rparr>"
      and d = exampleDeps] h0
  have three: "prisma (snd (publishStoreBookRelease exampleDeps (exampleArgs ''R1'' ''First Edition'')
      \<lparr>user = None\<rparr> exampleState)) = prisma exampleState"
    by blast
  from one two three show ?thesis by (simp add: exampleState_def)
qed

text \<open>
  C4, as stated, fails on the notes. The release \<^verbatim>\<open>R11\<close> has stored notes and the
  request of its owner leaves the notes out. The call succeeds, and the notes of the
  returned and of the stored row are the old ones: they have not been set from the
  request.
\<close>

theorem publish_notes_left_out_counterexample:
  "args_releaseNotes (exampleArgs ''R11'' ''First Edition'') = Undefined \<and>
   map_option releaseNotes (findFirstRelease (prisma exampleState) ''R11'') =
     Some (Some ''old notes'') \<and>
   fst (publishStoreBookRelease exampleDeps (exampleArgs ''R11'' ''First Edition'') (exampleUser 7)
      exampleState) =
     Inr (Some ((exampleRelease 11 ''R11'' 10)
       \<lparr>status := Some ''published'', releaseName := ''First Edition'',
         releaseNotes := Some ''old notes'', publishedAt := Some 1700000000\<rparr>)) \<and>
   map_option releaseNotes
     (findFirstRelease
        (prisma (snd (publishStoreBookRelease exampleDeps (exampleArgs ''R11'' ''First Edition'')
           (exampleUser 7) exampleState))) ''R11'') =
     Some (Some ''old notes'')"
  by (simp add: example_defs resolver_defs)

section \<open>The print stage runs or is skipped\<close>

text \<open>
  C5. For a call that has passed the checks on the caller, on the release and on its
  store book, and whose name and notes pass their checks (release ids are unique): the
  print stage runs if and only if both the print cover and the print file are attached.
  With both attached documents are read, and the four checks of the print stage decide
  the call: it succeeds when they pass, and ends in an error, with the store unchanged,
  when one of them fails. When one of the two assets is missing, no document is read and
  the call succeeds, writing the release as published, whatever the documents are.
\<close>

theorem publish_print_stage_iff_both_attached:
  assumes "args_uuid a = Some u" and "user ctx = Some usr"
    and "findFirstRelease (prisma s) u = Some rel"
    and "user_id usr \<in> set (admins d) \<or> userId rel = user_id usr"
    and "status rel \<noteq> Some ''published''"
    and "findFirstStoreBook (prisma s) (storeBookId rel) = Some book"
    and "storeBook_status book = Some ''published'' \<or> storeBook_status book = Some ''hidden''"
    and "validateReleaseNameLength d (args_releaseName a) = None"
    and "case args_releaseNotes a of Defined notes \<Rightarrow> validateReleaseNotesLength d notes = None
         | _ \<Rightarrow> True"
    and "distinct (map release_id (storeBookRelease (prisma s)))"
  shows "((inspected (snd (publishStoreBookRelease d a ctx s)) \<noteq> inspected s) =
        (printCover (prisma s) rel \<noteq> None \<and> printFile (prisma s) rel \<noteq> None)) \<and>
     (printCover (prisma s) rel = Some pc \<and> printFile (prisma s) rel = Some pf \<longrightarrow>
        (if printChecksPass d pc pf
         then fst (publishStoreBookRelease d a ctx s) = Inr (Some (publishData d a rel))
         else (fst (publishStoreBookRelease d a ctx s) = Inl DocumentError \<or>
               (\<exists>m. fst (publishStoreBookRelease d a ctx s) = Inl (ValidationFailed [m]))) \<and>
              prisma (snd (publishStoreBookRelease d a ctx s)) = prisma s)) \<and>
     (printCover (prisma s) rel = None \<or> printFile (prisma s) rel = None \<longrightarrow>
        publishStoreBookRelease d a ctx s =
          (Inr (Some (publishData d a rel)),
           s\<lparr>prisma := (prisma s)\<lparr>storeBookRelease :=
              map (\<lambda>x. if release_id x = release_id rel then publishData d a x else x)
                (storeBookRelease (prisma s))\<rparr>\<rparr>))"
proof -
  have ok: "throwValidationError (argErrors d a) = Inr ()"
    using assms(8,9) by (rule argErrors_pass)
  note pc = publishChecks_print [OF assms(1-7) ok]
  have grows: "(inspected (snd (publishStoreBookRelease d a ctx s)) \<noteq> inspected s) =
        (printCover (prisma s) rel \<noteq> None \<and> printFile (prisma s) rel \<noteq> None)"
  proof (cases "printCover (prisma s) rel \<noteq> None \<and> printFile (prisma s) rel \<noteq> None")
    case True
    then obtain c f where c: "printCover (prisma s) rel = Some c"
      and f: "printFile (prisma s) rel = Some f" by blast
    obtain res s' where vp: "validatePrint d c f s = (res, s')"
      by (cases "validatePrint d c f s")
    from pc c f vp have "snd (publishChecks d a ctx s) = s'"
      by (cases res) simp_all
    moreover from validatePrint_inspected [of d c f s] vp
    have "inspected s' \<noteq> inspected s" by auto
    ultimately have "inspected (snd (publishStoreBookRelease d a ctx s)) \<noteq> inspected s"
      by (simp add: publishStoreBookRelease_inspected)
    with True show ?thesis by blast
  next
    case False
    with pc have passed: "publishChecks d a ctx s = (Inr (Some rel), s)"
      by (auto split: option.splits)
    then have "inspected (snd (publishStoreBookRelease d a ctx s)) = inspected s"
      by (simp only: publishStoreBookRelease_inspected snd_conv)
    with False show ?thesis by blast
  qed
  have both: "if printChecksPass d pc pf
         then fst (publishStoreBookRelease d a ctx s) = Inr (Some (publishData d a rel))
         else (fst (publishStoreBookRelease d a ctx s) = Inl DocumentError \<or>
               (\<exists>m. fst (publishStoreBookRelease d a ctx s) = Inl (ValidationFailed [m]))) \<and>
              prisma (snd (publishStoreBookRelease d a ctx s)) = prisma s"
    if att: "printCover (prisma s) rel = Some pc \<and> printFile (prisma s) rel = Some pf"
  proof (cases "printChecksPass d pc pf")
    case True
    then have "fst (validatePrint d pc pf s) = Inr ()"
      by (simp only: validatePrint_pass_iff)
    then obtain s' where "validatePrint d pc pf s = (Inr (), s')"
      by (cases "validatePrint d pc pf s") simp
    with pc att have "publishChecks d a ctx s = (Inr (Some rel), s')" by simp
    from publishStoreBookRelease_passed [OF assms(10) this]
    have "fst (publishStoreBookRelease d a ctx s) = Inr (Some (publishData d a rel))" by simp
    then show ?thesis by (subst if_P [OF True])
  next
    case False
    from validatePrint_failure [OF False, of s]
    obtain e where e: "fst (validatePrint d pc pf s) = Inl e"
      and kind: "e = DocumentError \<or> (\<exists>m. e = ValidationFailed [m])"
      by auto
    then obtain s' where "validatePrint d pc pf s = (Inl e, s')"
      by (cases "validatePrint d pc pf s") simp
    with pc att have "fst (publishChecks d a ctx s) = Inl e" by simp
    from publishStoreBookRelease_failed [OF this] kind
    have "(fst (publishStoreBookRelease d a ctx s) = Inl DocumentError \<or>
          (\<exists>m. fst (publishStoreBookRelease d a ctx s) = Inl (ValidationFailed [m]))) \<and>
        prisma (snd (publishStoreBookRelease d a ctx s)) = prisma s"
      by auto
    then show ?thesis by (subst if_not_P [OF False])
  qed
  have absent: "publishStoreBookRelease d a ctx s =
          (Inr (Some (publishData d a rel)),
           s\<lparr>prisma := (prisma s)\<lparr>storeBookRelease :=
              map (\<lambda>x. if release_id x = release_id rel then publishData d a x else x)
                (storeBookRelease (prisma s))\<rparr>\<rparr>)"
    if "printCover (prisma s) rel = None \<or> printFile (prisma s) rel = None"
  proof -
    from that pc have "publishChecks d a ctx s = (Inr (Some rel), s)"
      by (auto split: option.splits)
    from publishStoreBookRelease_passed [OF assms(10) this] show ?thesis .
  qed
  from grows both absent show ?thesis by blast
qed


theorem publish_print_stage_iff_both_attached_witness:
  "publishStoreBookRelease exampleDeps (exampleArgs ''R1'' ''First Edition'') (exampleUser 7)
     exampleState =
   (Inr (Some ((exampleRelease 1 ''R1'' 10)
          \<lparr>status := Some ''published'', releaseName := ''First Edition'',
            publishedAt := Some 1700000000\<rparr>)),
    exampleState\<lparr>prisma := examplePrisma\<lparr>storeBookRelease :=
       (exampleRelease 1 ''R1'' 10)
          \<lparr>status := Some ''published'', releaseName := ''First Edition'',
            publishedAt := Some 1700000000\<rparr> #
       tl (storeBookRelease examplePrisma)\<rparr>\<rparr>) \<and>
   fst (publishStoreBookRelease exampleDeps (exampleArgs ''R6'' ''First Edition'') (exampleUser 7)
     exampleState) =
   Inr (Some ((exampleRelease 6 ''R6'' 10)
          \<lparr>status := Some ''published'', releaseName := ''First Edition'',
            publishedAt := Some 1700000000, printCoverId := Some 2, printFileId := Some 2\<rparr>)) \<and>
   inspected (snd (publishStoreBookRelease exampleDeps (exampleArgs ''R6'' ''First Edition'')
     (exampleUser 7) exampleState)) \<noteq> inspected exampleState \<and>
   prisma (snd (publishStoreBookRelease exampleDeps (exampleArgs ''R2'' ''First Edition'')
     (exampleUser 7) exampleState)) = examplePrisma"
proof -
  let ?book = "\<lparr>storeBook_id = 10, storeBook_status = Some ''published''\<rparr>"
  let ?a1 = "exampleArgs ''R1'' ''First Edition''"
  let ?a2 = "exampleArgs ''R2'' ''First Edition''"
  let ?a6 = "exampleArgs ''R6'' ''First Edition''"
  let ?r1 = "exampleRelease 1 ''R1'' 10"
  let ?r2 = "(exampleRelease 2 ''R2'' 10)\<lparr>printCoverId := Some 1, printFileId := Some 1\<rparr>"
  let ?r6 = "(exampleRelease 6 ''R6'' 10)\<lparr>printCoverId := Some 2, printFileId := Some 2\<rparr>"
  let ?c1 = "\<lparr>printCover_id = 1, printCover_uuid = ''C1''\<rparr>"
  let ?f1 = "\<lparr>printFile_id = 1, printFile_uuid = ''F1''\<rparr>"
  let ?c2 = "\<lparr>printCover_id = 2, printCover_uuid = ''C2''\<rparr>"
  let ?f2 = "\<lparr>printFile_id = 2, printFile_uuid = ''F2''\<rparr>"
  have h1: "args_uuid ?a1 = Some ''R1''"
    "user (exampleUser 7) = Some \<lparr>user_id = 7\<rparr>"
    "findFirstRelease (prisma exampleState) ''R1'' = Some ?r1"
    "user_id \<lparr>user_id = 7\<rparr> \<in> set (admins exampleDeps) \<or> userId ?r1 = user_id \<lparr>user_id = 7\<rparr>"
    "status ?r1 \<noteq> Some ''published''"
    "findFirstStoreBook (prisma exampleState) (storeBookId ?r1) = Some ?book"
    "storeBook_status ?book = Some ''published'' \<or> storeBook_status ?book = Some ''hidden''"
    "validateReleaseNameLength exampleDeps (args_releaseName ?a1) = None"
    "case args_releaseNotes ?a1 of Defined notes \<Rightarrow> validateReleaseNotesLength exampleDeps notes = None
     | _ \<Rightarrow> True"
    by (simp_all add: example_defs findFirstRelease_def findFirstStoreBook_def)
  have h2: "args_uuid ?a2 = Some ''R2''"
    "user (exampleUser 7) = Some \<lparr>user_id = 7\<rparr>"
    "findFirstRelease (prisma exampleState) ''R2'' = Some ?r2"
    "user_id \<lparr>user_id = 7\<rparr> \<in> set (admins exampleDeps) \<or> userId ?r2 = user_id \<lparr>user_id = 7\<rparr>"
    "status ?r2 \<noteq> Some ''published''"
    "findFirstStoreBook (prisma exampleState) (storeBookId ?r2) = Some ?book"
    "storeBook_status ?book = Some ''published'' \<or> storeBook_status ?book = Some ''hidden''"
    "validateReleaseNameLength exampleDeps (args_releaseName ?a2) = None"
    "case args_releaseNotes ?a2 of Defined notes \<Rightarrow> validateReleaseNotesLength exampleDeps notes = None
     | _ \<Rightarrow> True"
    by (simp_all add: example_defs findFirstRelease_def findFirstStoreBook_def)
  have h6: "args_uuid ?a6 = Some ''R6''"
    "user (exampleUser 7) = Some \<lparr>user_id = 7\<rparr>"
    "findFirstRelease (prisma exampleState) ''R6'' = Some ?r6"
    "user_id \<lparr>user_id = 7\<rparr> \<in> set (admins exampleDeps) \<or> userId ?r6 = user_id \<lparr>user_id = 7\<rparr>"
    "status ?r6 \<noteq> Some ''published''"
    "findFirstStoreBook (prisma exampleState) (storeBookId ?r6) = Some ?book"
    "storeBook_status ?book = Some ''published'' \<or> storeBook_status ?book = Some ''hidden''"
    "validateReleaseNameLength exampleDeps (args_releaseName ?a6) = None"
    "case args_releaseNotes ?a6 of Defined notes \<Rightarrow> validateReleaseNotesLength exampleDeps notes = None
     | _ \<Rightarrow> True"
    by (simp_all add: example_defs findFirstRelease_def findFirstStoreBook_def)
  have none1: "printCover (prisma exampleState) ?r1 = None \<or> printFile (prisma exampleState) ?r1 = None"
    by (simp add: example_defs printCover_def)
  have att2: "printCover (prisma exampleState) ?r2 = Some ?c1 \<and>
      printFile (prisma exampleState) ?r2 = Some ?f1"
    and fail2: "\<not> printChecksPass exampleDeps ?c1 ?f1"
    and att6: "printCover (prisma exampleState) ?r6 = Some ?c2 \<and>
      printFile (prisma exampleState) ?r6 = Some ?f2"
    and pass6: "printChecksPass exampleDeps ?c2 ?f2"
    by (simp_all add: example_defs printCover_def printFile_def printChecksPass_def numPages_def
        getPage_def)
  from publish_print_stage_iff_both_attached [OF h1 example_distinct] none1
  have one: "publishStoreBookRelease exampleDeps ?a1 (exampleUser 7) exampleState =
      (Inr (Some (publishData exampleDeps ?a1 ?r1)),
       exampleState\<lparr>prisma := (prisma exampleState)\<lparr>storeBookRelease :=
          map (\<lambda>x. if release_id x = release_id ?r1 then publishData exampleDeps ?a1 x else x)
            (storeBookRelease (prisma exampleState))\<rparr>\<rparr>)"
    by blast
  from publish_print_stage_iff_both_attached [OF h6 example_distinct, where pc = ?c2 and pf = ?f2]
    att6 pass6
  have six: "fst (publishStoreBookRelease exampleDeps ?a6 (exampleUser 7) exampleState) =
        Inr (Some (publishData exampleDeps ?a6 ?r6)) \<and>
      inspected (snd (publishStoreBookRelease exampleDeps ?a6 (exampleUser 7) exampleState)) \<noteq>
        inspected exampleState"
    by (simp only: if_True simp_thms option.distinct)
  from publish_print_stage_iff_both_attached [OF h2 example_distinct, where pc = ?c1 and pf = ?f1]
    att2 fail2
  have two: "prisma (snd (publishStoreBookRelease exampleDeps ?a2 (exampleUser 7) exampleState)) =
      prisma exampleState"
    by (simp only: if_False simp_thms)
  show ?thesis
    unfolding one using six two by (simp add: example_defs publishData_def)
qed

section \<open>Two calls that overlap\<close>







end
